theory Spec2Isabelle
  imports Complex_Main "HOL-Library.Multiset" "HOL-Library.Log_Nat"
begin

section \<open>Domain types (internal/domain/types.go)\<close>

text \<open>
  \<^verbatim>\<open>TransactionType\<close> and \<^verbatim>\<open>SourceType\<close> are Go string types, so values other than
  the declared constants exist and are kept in the model.
\<close>

type_synonym TransactionType = string
type_synonym SourceType = string

definition TransactionTypeDebit :: TransactionType where
  "TransactionTypeDebit = ''DEBIT''"

definition TransactionTypeCredit :: TransactionType where
  "TransactionTypeCredit = ''CREDIT''"

definition SourceTypeSystem :: SourceType where
  "SourceTypeSystem = ''SYSTEM''"

definition SourceTypeBank :: SourceType where
  "SourceTypeBank = ''BANK''"

section \<open>Transaction (internal/domain/transaction/transaction.go)\<close>

text \<open>
  A \<^verbatim>\<open>time.Time\<close> is observed by the program only through \<^verbatim>\<open>Date()\<close> and
  \<^verbatim>\<open>Format("2006-01-02")\<close>, which both read the calendar date in the value's own
  location. The model keeps that date and the time of day (in nanoseconds).
\<close>

record GoTime =
  t_year :: int
  t_month :: nat
  t_day :: nat
  t_clock :: nat

text \<open>
  An amount is a real number; the \<^verbatim>\<open>float64\<close> values are the reals that \<open>f64_round\<close>
  (below) leaves unchanged, and the test data uses only such values. There is no NaN and
  no infinity. The product \<^verbatim>\<open>amount * 100\<close> of \<^verbatim>\<open>formatAmount\<close> is rounded as the
  \<^verbatim>\<open>float64\<close> multiplication rounds it; the subtraction of \<^verbatim>\<open>amountsEqual\<close> and
  \<^verbatim>\<open>calculateDiscrepancy\<close> and the statistics of \<^verbatim>\<open>Finalize\<close> are computed exactly.
  The audit maps \<^verbatim>\<open>RawData\<close> and \<^verbatim>\<open>NormalizedData\<close> are never read by the
  matching engine and are left out. The field \<^verbatim>\<open>Matched\<close> of the Go struct is
  \<open>Matched_flag\<close> here, since \<open>Matched\<close> names the field of the match result.
\<close>

record Transaction =
  ID :: string
  JobID :: string
  FileID :: string
  SourceType :: SourceType
  TransactionDate :: GoTime
  Amount :: real
  Type :: TransactionType
  Source :: string
  Matched_flag :: bool
  CreatedAt :: GoTime
  UpdatedAt :: GoTime

text \<open>\<^verbatim>\<open>NewTransaction\<close>; the clock reading \<^verbatim>\<open>time.Now()\<close> is the parameter \<open>now\<close>.
  The ID is left empty, as in the source.\<close>

definition NewTransaction ::
  "GoTime \<Rightarrow> string \<Rightarrow> string \<Rightarrow> SourceType \<Rightarrow> GoTime \<Rightarrow> real \<Rightarrow> TransactionType \<Rightarrow> string
    \<Rightarrow> Transaction" where
  "NewTransaction now jobID fileID sourceType transactionDate amount txnType source =
     \<lparr> ID = [], JobID = jobID, FileID = fileID, SourceType = sourceType,
       TransactionDate = transactionDate, Amount = amount, Type = txnType,
       Source = source, Matched_flag = False, CreatedAt = now, UpdatedAt = now \<rparr>"

definition IsDebit :: "Transaction \<Rightarrow> bool" where
  "IsDebit t = (Type t = TransactionTypeDebit \<or> Amount t < 0)"

definition AbsAmount :: "Transaction \<Rightarrow> real" where
  "AbsAmount t = (if Amount t < 0 then - Amount t else Amount t)"

definition NormalizeAmount :: "GoTime \<Rightarrow> Transaction \<Rightarrow> Transaction" where
  "NormalizeAmount now t =
     (if Type t = TransactionTypeDebit \<and> Amount t > 0
        then t\<lparr> Amount := - Amount t \<rparr>
      else if Type t = TransactionTypeCredit \<and> Amount t < 0
        then t\<lparr> Amount := - Amount t \<rparr>
      else t)
     \<lparr> UpdatedAt := now \<rparr>"

section \<open>Match results (pkg/matcher)\<close>

record MatchPair =
  SystemTransaction :: Transaction
  BankTransaction :: Transaction
  ConfidenceScore :: real
  AmountDiscrepancy :: real

record MatchResult =
  Matched :: "MatchPair list"
  UnmatchedSystem :: "Transaction list"
  UnmatchedBank :: "Transaction list"
  AlgorithmUsed :: string
  MatchRate :: real
  TotalSystemTxns :: int
  TotalBankTxns :: int
  TotalMatched :: int
  TotalDiscrepancy :: real

definition CalculateMatchRate :: "int \<Rightarrow> int \<Rightarrow> int \<Rightarrow> real" where
  "CalculateMatchRate totalMatched totalSystem totalBank =
     (if totalSystem = 0 \<and> totalBank = 0 then 100
      else let total = totalSystem + totalBank;
               matched = totalMatched * 2
           in (real_of_int matched / real_of_int total) * 100)"

text \<open>\<^verbatim>\<open>NewMatchResult\<close>: the numeric fields take Go's zero values.\<close>

definition NewMatchResult :: "string \<Rightarrow> MatchResult" where
  "NewMatchResult algorithmName =
     \<lparr> Matched = [], UnmatchedSystem = [], UnmatchedBank = [],
       AlgorithmUsed = algorithmName, MatchRate = 0, TotalSystemTxns = 0,
       TotalBankTxns = 0, TotalMatched = 0, TotalDiscrepancy = 0 \<rparr>"

text \<open>The three accumulation loops of \<^verbatim>\<open>Finalize\<close>, each over one partition.\<close>

fun add_pair_discrepancies :: "real \<Rightarrow> MatchPair list \<Rightarrow> real" where
  "add_pair_discrepancies acc [] = acc"
| "add_pair_discrepancies acc (pair # rest) =
     add_pair_discrepancies (acc + AmountDiscrepancy pair) rest"

fun add_abs_amounts :: "real \<Rightarrow> Transaction list \<Rightarrow> real" where
  "add_abs_amounts acc [] = acc"
| "add_abs_amounts acc (txn # rest) = add_abs_amounts (acc + AbsAmount txn) rest"

definition Finalize :: "MatchResult \<Rightarrow> MatchResult" where
  "Finalize mr =
     (let ts = int (length (Matched mr)) + int (length (UnmatchedSystem mr));
          tb = int (length (Matched mr)) + int (length (UnmatchedBank mr));
          tm = int (length (Matched mr))
      in mr\<lparr> TotalSystemTxns := ts,
             TotalBankTxns := tb,
             TotalMatched := tm,
             MatchRate := CalculateMatchRate tm ts tb,
             TotalDiscrepancy :=
               add_abs_amounts
                 (add_abs_amounts (add_pair_discrepancies 0 (Matched mr)) (UnmatchedSystem mr))
                 (UnmatchedBank mr) \<rparr>)"

section \<open>The exact matcher (pkg/matcher/exact_matcher.go)\<close>

subsection \<open>Go conversions used by \<^verbatim>\<open>formatAmount\<close>\<close>

text \<open>\<^verbatim>\<open>float64\<close> rounding: to the nearest value with a 53-bit significand, ties to
  the even significand, with the subnormal spacing \<open>2^-1074\<close> below \<open>2^-1022\<close>.
  \<open>f64_exponent x\<close> is, for \<open>x > 0\<close>, the \<open>e\<close> with \<open>2^e \<le> x < 2^(e+1)\<close>.\<close>

definition pow2 :: "int \<Rightarrow> real" where
  "pow2 e = (if 0 \<le> e then 2 ^ nat e else 1 / 2 ^ nat (- e))"

definition f64_exponent :: "real \<Rightarrow> int" where
  "f64_exponent x = (if 1 \<le> x then bitlen \<lfloor>x\<rfloor> - 1 else - bitlen (\<lceil>1 / x\<rceil> - 1))"

definition round_half_even :: "real \<Rightarrow> int" where
  "round_half_even x =
     (let f = \<lfloor>x\<rfloor>; d = x - of_int f
      in if d < 1 / 2 then f else if 1 / 2 < d then f + 1 else if even f then f else f + 1)"

definition f64_round :: "real \<Rightarrow> real" where
  "f64_round x =
     (if x = 0 then 0
      else let q = pow2 (max (f64_exponent \<bar>x\<bar>) (- 1022) - 52)
           in of_int (round_half_even (x / q)) * q)"

text \<open>The \<^verbatim>\<open>float64\<close> product \<^verbatim>\<open>a * b\<close>: the exact product, rounded.\<close>

definition f64_mul :: "real \<Rightarrow> real \<Rightarrow> real" where
  "f64_mul a b = f64_round (a * b)"

text \<open>\<^verbatim>\<open>int(x)\<close> on a \<^verbatim>\<open>float64\<close> truncates towards zero into a 64-bit integer. For a
  value outside that range Go leaves the result to the implementation; this is the result
  on amd64, the smallest 64-bit integer.\<close>

definition go_int :: "real \<Rightarrow> int" where
  "go_int x =
     (let t = (if x < 0 then \<lceil>x\<rceil> else \<lfloor>x\<rfloor>)
      in if - (2 ^ 63) \<le> t \<and> t < 2 ^ 63 then t else - (2 ^ 63))"

text \<open>\<^verbatim>\<open>rune(n)\<close> keeps the low 32 bits of the integer, read as signed.\<close>

definition rune_of_int :: "int \<Rightarrow> int" where
  "rune_of_int n = (n + 2 ^ 31) mod 2 ^ 32 - 2 ^ 31"

definition valid_rune :: "int \<Rightarrow> bool" where
  "valid_rune r = (0 \<le> r \<and> r \<le> 0x10FFFF \<and> \<not> (0xD800 \<le> r \<and> r \<le> 0xDFFF))"

definition utf8_encode :: "nat \<Rightarrow> string" where
  "utf8_encode n =
     (if n < 0x80 then [char_of n]
      else if n < 0x800 then [char_of (0xC0 + n div 64), char_of (0x80 + n mod 64)]
      else if n < 0x10000 then
        [char_of (0xE0 + n div 4096), char_of (0x80 + n div 64 mod 64),
         char_of (0x80 + n mod 64)]
      else
        [char_of (0xF0 + n div 262144), char_of (0x80 + n div 4096 mod 64),
         char_of (0x80 + n div 64 mod 64), char_of (0x80 + n mod 64)])"

text \<open>\<^verbatim>\<open>string(r)\<close> for a rune: the UTF-8 bytes of the code point, and those of
  U+FFFD for a value that is no valid code point.\<close>

definition string_of_rune :: "int \<Rightarrow> string" where
  "string_of_rune r = (if valid_rune r then utf8_encode (nat r) else utf8_encode 0xFFFD)"

definition formatAmount :: "real \<Rightarrow> string" where
  "formatAmount amount = string_of_rune (rune_of_int (go_int (f64_mul amount 100)))"

subsection \<open>\<^verbatim>\<open>Format("2006-01-02")\<close>\<close>

definition digit_char :: "nat \<Rightarrow> char" where
  "digit_char d = char_of (48 + d)"

fun digits :: "nat \<Rightarrow> string" where
  "digits n = (if n < 10 then [digit_char n] else digits (n div 10) @ [digit_char (n mod 10)])"

declare digits.simps [simp del]

text \<open>The standard library's \<^verbatim>\<open>appendInt\<close>: a minus sign for a negative value, then
  the decimal digits, zero-padded on the left to the width.\<close>

definition appendInt :: "int \<Rightarrow> nat \<Rightarrow> string" where
  "appendInt x width =
     (let u = nat \<bar>x\<bar>; ds = digits u
      in (if x < 0 then ''-'' else []) @ replicate (width - length ds) CHR ''0'' @ ds)"

definition Format_date :: "GoTime \<Rightarrow> string" where
  "Format_date t =
     appendInt (t_year t) 4 @ ''-'' @ appendInt (int (t_month t)) 2 @ ''-''
       @ appendInt (int (t_day t)) 2"

subsection \<open>Keys and predicates\<close>

definition generateKey :: "Transaction \<Rightarrow> string" where
  "generateKey txn =
     (let dateStr = Format_date (TransactionDate txn);
          typeStr = (if IsDebit txn then ''debit'' else ''credit'');
          amount = AbsAmount txn
      in dateStr @ ''_'' @ typeStr @ ''_'' @ formatAmount amount)"

definition isSameDay :: "GoTime \<Rightarrow> GoTime \<Rightarrow> bool" where
  "isSameDay t1 t2 = (t_year t1 = t_year t2 \<and> t_month t1 = t_month t2 \<and> t_day t1 = t_day t2)"

definition amountsEqual :: "real \<Rightarrow> real \<Rightarrow> bool" where
  "amountsEqual a1 a2 = (\<bar>a1 - a2\<bar> < 0.001)"

definition isExactMatch :: "Transaction \<Rightarrow> Transaction \<Rightarrow> bool" where
  "isExactMatch sysTxn bankTxn =
     (if \<not> isSameDay (TransactionDate sysTxn) (TransactionDate bankTxn) then False
      else if IsDebit sysTxn \<noteq> IsDebit bankTxn then False
      else if \<not> amountsEqual (AbsAmount sysTxn) (AbsAmount bankTxn) then False
      else True)"

definition calculateDiscrepancy :: "Transaction \<Rightarrow> Transaction \<Rightarrow> real" where
  "calculateDiscrepancy sysTxn bankTxn = \<bar>AbsAmount sysTxn - AbsAmount bankTxn\<bar>"

subsection \<open>\<^verbatim>\<open>Match\<close>\<close>

text \<open>First loop: \<^verbatim>\<open>bankTxnMap[key] = append(bankTxnMap[key], bankTxn)\<close>; a key
  that is absent reads as the empty slice.\<close>

fun build_bankTxnMap ::
  "(string \<rightharpoonup> Transaction list) \<Rightarrow> Transaction list \<Rightarrow> (string \<rightharpoonup> Transaction list)" where
  "build_bankTxnMap m [] = m"
| "build_bankTxnMap m (bankTxn # rest) =
     (let key = generateKey bankTxn
      in build_bankTxnMap
           (m(key \<mapsto> (case m key of None \<Rightarrow> [] | Some l \<Rightarrow> l) @ [bankTxn])) rest)"

text \<open>The state of the second loop: the result under construction and the consumed-set
  \<^verbatim>\<open>matchedBankTxns\<close>, a \<^verbatim>\<open>map[string]bool\<close> that only ever receives \<^verbatim>\<open>true\<close>, kept
  as the set of its keys.\<close>

record MatchState =
  result :: MatchResult
  matchedBankTxns :: "string set"

definition add_unmatched_system :: "Transaction \<Rightarrow> MatchState \<Rightarrow> MatchState" where
  "add_unmatched_system sysTxn st =
     st\<lparr> result := (result st)\<lparr> UnmatchedSystem := UnmatchedSystem (result st) @ [sysTxn] \<rparr> \<rparr>"

text \<open>The innermost loop: the first available candidate that passes \<^verbatim>\<open>isExactMatch\<close>
  is paired and the loop breaks; \<open>None\<close> is \<^verbatim>\<open>matched == false\<close>.\<close>

fun try_candidates :: "Transaction \<Rightarrow> Transaction list \<Rightarrow> MatchState \<Rightarrow> MatchState option" where
  "try_candidates sysTxn [] st = None"
| "try_candidates sysTxn (bankTxn # rest) st =
     (if isExactMatch sysTxn bankTxn then
        Some (st\<lparr> result := (result st)\<lparr> Matched := Matched (result st) @
                      [\<lparr> SystemTransaction = sysTxn, BankTransaction = bankTxn,
                         ConfidenceScore = 100,
                         AmountDiscrepancy = calculateDiscrepancy sysTxn bankTxn \<rparr>] \<rparr>,
                  matchedBankTxns := insert (ID bankTxn) (matchedBankTxns st) \<rparr>)
      else try_candidates sysTxn rest st)"

definition match_step ::
  "(string \<rightharpoonup> Transaction list) \<Rightarrow> MatchState \<Rightarrow> Transaction \<Rightarrow> MatchState" where
  "match_step bankTxnMap st sysTxn =
     (let key = generateKey sysTxn
      in case bankTxnMap key of
           None \<Rightarrow> add_unmatched_system sysTxn st
         | Some candidates \<Rightarrow>
             if length candidates = 0 then add_unmatched_system sysTxn st
             else
               let availableCandidates =
                     filter (\<lambda>bankTxn. ID bankTxn \<notin> matchedBankTxns st) candidates
               in if length availableCandidates > 1 then add_unmatched_system sysTxn st
                  else (case try_candidates sysTxn availableCandidates st of
                          Some st' \<Rightarrow> st'
                        | None \<Rightarrow> add_unmatched_system sysTxn st))"

fun match_loop ::
  "(string \<rightharpoonup> Transaction list) \<Rightarrow> MatchState \<Rightarrow> Transaction list \<Rightarrow> MatchState" where
  "match_loop bankTxnMap st [] = st"
| "match_loop bankTxnMap st (sysTxn # rest) =
     match_loop bankTxnMap (match_step bankTxnMap st sysTxn) rest"

text \<open>Last loop: every bank transaction whose ID is not in the consumed-set.\<close>

fun collect_unmatched_bank :: "MatchState \<Rightarrow> Transaction list \<Rightarrow> MatchState" where
  "collect_unmatched_bank st [] = st"
| "collect_unmatched_bank st (bankTxn # rest) =
     collect_unmatched_bank
       (if ID bankTxn \<notin> matchedBankTxns st
        then st\<lparr> result := (result st)\<lparr> UnmatchedBank := UnmatchedBank (result st) @ [bankTxn] \<rparr> \<rparr>
        else st)
       rest"

definition Name :: string where
  "Name = ''exact''"

text \<open>The state after the loop over the system transactions.\<close>

definition match_run :: "Transaction list \<Rightarrow> Transaction list \<Rightarrow> MatchState" where
  "match_run systemTxns bankTxns =
     match_loop (build_bankTxnMap Map.empty bankTxns)
       \<lparr> result = NewMatchResult Name, matchedBankTxns = {} \<rparr> systemTxns"

text \<open>\<^verbatim>\<open>Match\<close> returns the finalized result and the error, which is always \<^verbatim>\<open>nil\<close>
  (\<open>None\<close>).\<close>

definition Match :: "Transaction list \<Rightarrow> Transaction list \<Rightarrow> MatchResult \<times> string option" where
  "Match systemTxns bankTxns =
     (Finalize (result (collect_unmatched_bank (match_run systemTxns bankTxns) bankTxns)), None)"

section \<open>Auxiliary notions for the proofs\<close>

text \<open>The unconsumed candidates a system transaction with key \<open>k\<close> sees in state \<open>st\<close>:
  the bucket of \<open>k\<close> in input order, without the bank transactions whose ID is in the
  consumed-set.\<close>

definition available :: "MatchState \<Rightarrow> Transaction list \<Rightarrow> string \<Rightarrow> Transaction list" where
  "available st bs k = filter (\<lambda>b. generateKey b = k \<and> ID b \<notin> matchedBankTxns st) bs"

text \<open>The state after pairing \<open>s\<close> with \<open>b\<close>, as the innermost loop builds it.\<close>

definition add_match :: "Transaction \<Rightarrow> Transaction \<Rightarrow> MatchState \<Rightarrow> MatchState" where
  "add_match s b st =
     st\<lparr> result := (result st)\<lparr> Matched := Matched (result st) @
              [\<lparr> SystemTransaction = s, BankTransaction = b, ConfidenceScore = 100,
                 AmountDiscrepancy = calculateDiscrepancy s b \<rparr>] \<rparr>,
         matchedBankTxns := insert (ID b) (matchedBankTxns st) \<rparr>"

text \<open>The bank transactions a run over \<open>sys\<close> consumes when the bank IDs are pairwise
  different: those alone in their bucket for which some system transaction with their key
  passes \<^verbatim>\<open>isExactMatch\<close>.\<close>

definition claimed :: "Transaction list \<Rightarrow> Transaction list \<Rightarrow> Transaction set" where
  "claimed sys bs =
     {b \<in> set bs. filter (\<lambda>c. generateKey c = generateKey b) bs = [b] \<and>
        (\<exists>s \<in> set sys. generateKey s = generateKey b \<and> isExactMatch s b)}"

text \<open>The number a string of decimal digits denotes, to read a formatted date back.\<close>

definition dec_val :: "string \<Rightarrow> nat" where
  "dec_val s = foldl (\<lambda>a c. 10 * a + (of_char c - 48)) 0 s"

text \<open>The whole cents of the absolute amount, the integer \<^verbatim>\<open>formatAmount\<close> turns into
  a rune.\<close>

definition cents :: "Transaction \<Rightarrow> int" where
  "cents t = go_int (f64_mul (AbsAmount t) 100)"

section \<open>Test data (pkg/matcher/exact_matcher_test.go)\<close>

text \<open>The two helpers of the test file, with the clock reading as a parameter.\<close>

definition createSystemTransaction ::
  "GoTime \<Rightarrow> string \<Rightarrow> string \<Rightarrow> real \<Rightarrow> TransactionType \<Rightarrow> GoTime \<Rightarrow> Transaction" where
  "createSystemTransaction now txnID source amount txnType date =
     NormalizeAmount now
       ((NewTransaction now ''test-job'' ''test-file'' SourceTypeSystem date amount txnType source)
          \<lparr> ID := txnID \<rparr>)"

definition createBankTransaction ::
  "GoTime \<Rightarrow> string \<Rightarrow> string \<Rightarrow> real \<Rightarrow> TransactionType \<Rightarrow> GoTime \<Rightarrow> Transaction" where
  "createBankTransaction now txnID source amount txnType date =
     NormalizeAmount now
       ((NewTransaction now ''test-job'' ''test-file'' SourceTypeBank date amount txnType source)
          \<lparr> ID := txnID \<rparr>)"

definition date_0315 :: GoTime where
  "date_0315 = \<lparr> t_year = 2024, t_month = 3, t_day = 15, t_clock = 0 \<rparr>"

definition clock_0 :: GoTime where
  "clock_0 = \<lparr> t_year = 2024, t_month = 4, t_day = 1, t_clock = 0 \<rparr>"

definition sys_debit_150 :: Transaction where
  "sys_debit_150 =
     createSystemTransaction clock_0 ''SYS001'' ''BCA'' 150.5 TransactionTypeDebit date_0315"

definition sys_debit_150_other :: Transaction where
  "sys_debit_150_other =
     createSystemTransaction clock_0 ''SYS002'' ''MANDIRI'' 150.5 TransactionTypeDebit date_0315"

definition bank_debit_150 :: Transaction where
  "bank_debit_150 =
     createBankTransaction clock_0 ''BANK001'' ''BCA'' (- 150.5) TransactionTypeDebit date_0315"

definition bank_debit_150_other :: Transaction where
  "bank_debit_150_other =
     createBankTransaction clock_0 ''BANK002'' ''MANDIRI'' (- 150.5) TransactionTypeDebit date_0315"

text \<open>Two statement rows of different banks that carry the same identifier.\<close>

definition bank_bca_tx1 :: Transaction where
  "bank_bca_tx1 =
     createBankTransaction clock_0 ''TX001'' ''BCA'' (- 150.5) TransactionTypeDebit date_0315"

definition bank_mandiri_tx1 :: Transaction where
  "bank_mandiri_tx1 =
     createBankTransaction clock_0 ''TX001'' ''MANDIRI'' (- 75.25) TransactionTypeDebit date_0315"

text \<open>A third statement row with an identifier of its own, and a system debit for the
  MANDIRI row.\<close>

definition bank_bni_tx2 :: Transaction where
  "bank_bni_tx2 =
     createBankTransaction clock_0 ''TX002'' ''BNI'' (- 150.5) TransactionTypeDebit date_0315"

definition sys_debit_75 :: Transaction where
  "sys_debit_75 =
     createSystemTransaction clock_0 ''SYS007'' ''MANDIRI'' 75.25 TransactionTypeDebit date_0315"

text \<open>Amounts whose cent count lies beyond the last code point \<open>0x10FFFF\<close>.\<close>

definition sys_debit_2500000 :: Transaction where
  "sys_debit_2500000 =
     createSystemTransaction clock_0 ''SYS008'' ''BCA'' 2500000 TransactionTypeDebit date_0315"

definition bank_debit_2500000 :: Transaction where
  "bank_debit_2500000 =
     createBankTransaction clock_0 ''BANK005'' ''BCA'' (- 2500000) TransactionTypeDebit date_0315"

definition bank_debit_3000000 :: Transaction where
  "bank_debit_3000000 =
     createBankTransaction clock_0 ''BANK006'' ''BCA'' (- 3000000) TransactionTypeDebit date_0315"

text \<open>A debit of amount zero, and two credits that differ by \<open>1/1024\<close>, below one cent
  and below the epsilon of \<^verbatim>\<open>amountsEqual\<close>; all three amounts are exact binary
  fractions.\<close>

definition sys_debit_zero :: Transaction where
  "sys_debit_zero =
     (NewTransaction clock_0 ''cli-job'' ''system-file'' SourceTypeSystem date_0315 0
        TransactionTypeDebit ''BCA'') \<lparr> ID := ''SYS003'' \<rparr>"

definition sys_credit_1 :: Transaction where
  "sys_credit_1 =
     createSystemTransaction clock_0 ''SYS004'' ''BCA'' 1 TransactionTypeCredit date_0315"

definition bank_credit_1 :: Transaction where
  "bank_credit_1 =
     createBankTransaction clock_0 ''BANK003'' ''BCA'' 1 TransactionTypeCredit date_0315"

definition bank_credit_1_frac :: Transaction where
  "bank_credit_1_frac =
     createBankTransaction clock_0 ''BANK004'' ''BCA'' (1 + 1 / 1024) TransactionTypeCredit date_0315"

text \<open>Two rows as the ingestion builds them before it calls \<^verbatim>\<open>NormalizeAmount\<close>:
  a debit stored with a positive amount and a credit stored with a negative one.\<close>

definition raw_debit_positive :: Transaction where
  "raw_debit_positive =
     (NewTransaction clock_0 ''cli-job'' ''system-file'' SourceTypeSystem date_0315 150.5
        TransactionTypeDebit ''BCA'') \<lparr> ID := ''SYS005'' \<rparr>"

definition raw_credit_negative :: Transaction where
  "raw_credit_negative =
     (NewTransaction clock_0 ''cli-job'' ''system-file'' SourceTypeSystem date_0315 (- 20)
        TransactionTypeCredit ''BCA'') \<lparr> ID := ''SYS006'' \<rparr>"

section \<open>Sign normalisation\<close>


lemma NormalizeAmount_Type: "Type (NormalizeAmount now t) = Type t"
  by (simp add: NormalizeAmount_def)

section \<open>The loops of \<^verbatim>\<open>Match\<close>\<close>

lemma build_bankTxnMap_lookup:
  "build_bankTxnMap m bs k =
     (if filter (\<lambda>b. generateKey b = k) bs = [] then m k
      else Some ((case m k of None \<Rightarrow> [] | Some l \<Rightarrow> l) @ filter (\<lambda>b. generateKey b = k) bs))"
  by (induction bs arbitrary: m) (auto simp: Let_def)

lemma build_bankTxnMap_empty:
  "build_bankTxnMap Map.empty bs k =
     (if filter (\<lambda>b. generateKey b = k) bs = [] then None
      else Some (filter (\<lambda>b. generateKey b = k) bs))"
  by (simp add: build_bankTxnMap_lookup)

lemma available_bucket:
  "available st bs k =
     filter (\<lambda>b. ID b \<notin> matchedBankTxns st) (filter (\<lambda>b. generateKey b = k) bs)"
  by (simp add: available_def conj_commute)

lemma match_step_eq:
  "match_step (build_bankTxnMap Map.empty bs) st s =
     (case available st bs (generateKey s) of
        [b] \<Rightarrow> if isExactMatch s b then add_match s b st else add_unmatched_system s st
      | _ \<Rightarrow> add_unmatched_system s st)"
proof (cases "filter (\<lambda>b. generateKey b = generateKey s) bs = []")
  case True
  then have "available st bs (generateKey s) = []"
    by (simp add: available_bucket)
  with True show ?thesis
    by (simp add: match_step_def build_bankTxnMap_empty)
next
  case False
  then show ?thesis
    by (simp add: match_step_def build_bankTxnMap_empty available_bucket add_match_def Let_def
        split: list.splits)
qed


lemma match_step_cases:
  "match_step (build_bankTxnMap Map.empty bs) st s = add_unmatched_system s st \<or>
   (\<exists>b. available st bs (generateKey s) = [b] \<and> isExactMatch s b \<and>
        match_step (build_bankTxnMap Map.empty bs) st s = add_match s b st)"
  by (simp add: match_step_eq split: list.splits)

lemma match_loop_invariant:
  assumes "P st"
    and "\<And>st s. P st \<Longrightarrow> s \<in> set sys \<Longrightarrow> P (add_unmatched_system s st)"
    and "\<And>st s b. P st \<Longrightarrow> s \<in> set sys \<Longrightarrow> available st bs (generateKey s) = [b] \<Longrightarrow>
           isExactMatch s b \<Longrightarrow> P (add_match s b st)"
  shows "P (match_loop (build_bankTxnMap Map.empty bs) st sys)"
  using assms
proof (induction sys arbitrary: st)
  case Nil
  then show ?case by simp
next
  case (Cons s sys)
  have "P (match_step (build_bankTxnMap Map.empty bs) st s)"
    using match_step_cases [of bs st s] Cons.prems by auto
  then show ?case
    using Cons.IH Cons.prems(2,3) by simp
qed

lemma available_mem: "available st bs k = [b] \<Longrightarrow> b \<in> set bs \<and> generateKey b = k \<and> ID b \<notin> matchedBankTxns st"
proof -
  assume a: "available st bs k = [b]"
  then have "b \<in> set (available st bs k)" by simp
  then show ?thesis by (simp add: available_def)
qed

lemma add_unmatched_system_simps [simp]:
  "Matched (result (add_unmatched_system s st)) = Matched (result st)"
  "UnmatchedSystem (result (add_unmatched_system s st)) = UnmatchedSystem (result st) @ [s]"
  "UnmatchedBank (result (add_unmatched_system s st)) = UnmatchedBank (result st)"
  "matchedBankTxns (add_unmatched_system s st) = matchedBankTxns st"
  by (simp_all add: add_unmatched_system_def)

lemma add_match_simps [simp]:
  "Matched (result (add_match s b st)) = Matched (result st) @
     [\<lparr> SystemTransaction = s, BankTransaction = b, ConfidenceScore = 100,
        AmountDiscrepancy = calculateDiscrepancy s b \<rparr>]"
  "UnmatchedSystem (result (add_match s b st)) = UnmatchedSystem (result st)"
  "UnmatchedBank (result (add_match s b st)) = UnmatchedBank (result st)"
  "matchedBankTxns (add_match s b st) = insert (ID b) (matchedBankTxns st)"
  by (simp_all add: add_match_def)

lemma collect_unmatched_bank_eq:
  "collect_unmatched_bank st bs =
     st\<lparr> result := (result st)\<lparr> UnmatchedBank :=
            UnmatchedBank (result st) @ filter (\<lambda>b. ID b \<notin> matchedBankTxns st) bs \<rparr> \<rparr>"
  by (induction bs arbitrary: st) auto

lemma Finalize_partitions [simp]:
  "Matched (Finalize mr) = Matched mr"
  "UnmatchedSystem (Finalize mr) = UnmatchedSystem mr"
  "UnmatchedBank (Finalize mr) = UnmatchedBank mr"
  by (simp_all add: Finalize_def Let_def)

lemma Match_Matched: "Matched (fst (Match sys bs)) = Matched (result (match_run sys bs))"
  by (simp add: Match_def collect_unmatched_bank_eq)

lemma Match_UnmatchedSystem:
  "UnmatchedSystem (fst (Match sys bs)) = UnmatchedSystem (result (match_run sys bs))"
  by (simp add: Match_def collect_unmatched_bank_eq)

lemma match_run_UnmatchedBank: "UnmatchedBank (result (match_run sys bs)) = []"
  unfolding match_run_def
  by (rule match_loop_invariant) (simp_all add: NewMatchResult_def)

lemma Match_UnmatchedBank:
  "UnmatchedBank (fst (Match sys bs)) =
     filter (\<lambda>b. ID b \<notin> matchedBankTxns (match_run sys bs)) bs"
  by (simp add: Match_def collect_unmatched_bank_eq match_run_UnmatchedBank)

lemma match_loop_system_count:
  "length (Matched (result (match_loop (build_bankTxnMap Map.empty bs) st sys))) +
   length (UnmatchedSystem (result (match_loop (build_bankTxnMap Map.empty bs) st sys))) =
   length (Matched (result st)) + length (UnmatchedSystem (result st)) + length sys"
proof (induction sys arbitrary: st)
  case Nil
  then show ?case by simp
next
  case (Cons s sys)
  show ?case
    using match_step_cases [of bs st s] by (auto simp: Cons.IH)
qed

lemma match_run_consumed:
  "matchedBankTxns (match_run sys bs) = set (map (\<lambda>p. ID (BankTransaction p)) (Matched (result (match_run sys bs))))"
  unfolding match_run_def
  by (rule match_loop_invariant) (simp_all add: NewMatchResult_def)

lemma match_run_distinct:
  "distinct (map (\<lambda>p. ID (BankTransaction p)) (Matched (result (match_run sys bs))))
   \<and> matchedBankTxns (match_run sys bs) = set (map (\<lambda>p. ID (BankTransaction p)) (Matched (result (match_run sys bs))))"
  unfolding match_run_def
  by (rule match_loop_invariant) (auto simp: NewMatchResult_def dest: available_mem)



lemma match_run_pairs:
  "\<forall>p \<in> set (Matched (result (match_run sys bs))).
     SystemTransaction p \<in> set sys \<and> BankTransaction p \<in> set bs \<and>
     generateKey (BankTransaction p) = generateKey (SystemTransaction p) \<and>
     isExactMatch (SystemTransaction p) (BankTransaction p) \<and>
     ConfidenceScore p = 100 \<and>
     AmountDiscrepancy p = calculateDiscrepancy (SystemTransaction p) (BankTransaction p)"
  unfolding match_run_def
  by (rule match_loop_invariant) (auto simp: NewMatchResult_def dest: available_mem)

lemma isExactMatch_iff:
  "isExactMatch s b \<longleftrightarrow>
     isSameDay (TransactionDate s) (TransactionDate b) \<and> IsDebit s = IsDebit b \<and>
     \<bar>AbsAmount s - AbsAmount b\<bar> < 0.001"
  by (simp add: isExactMatch_def amountsEqual_def)

lemma match_loop_append:
  "match_loop m st (xs @ ys) = match_loop m (match_loop m st xs) ys"
  by (induction xs arbitrary: st) simp_all

lemma match_run_snoc:
  "match_run (pre @ [s]) bs = match_step (build_bankTxnMap Map.empty bs) (match_run pre bs) s"
  by (simp add: match_run_def match_loop_append)

lemma match_run_append:
  "match_run (pre @ post) bs = match_loop (build_bankTxnMap Map.empty bs) (match_run pre bs) post"
  by (simp add: match_run_def match_loop_append)

lemma match_loop_UnmatchedSystem_mono:
  "set (UnmatchedSystem (result st)) \<subseteq>
   set (UnmatchedSystem (result (match_loop (build_bankTxnMap Map.empty bs) st sys)))"
proof (induction sys arbitrary: st)
  case Nil
  then show ?case by simp
next
  case (Cons s sys)
  have "set (UnmatchedSystem (result st)) \<subseteq>
        set (UnmatchedSystem (result (match_step (build_bankTxnMap Map.empty bs) st s)))"
    using match_step_cases [of bs st s] by auto
  with Cons.IH [of "match_step (build_bankTxnMap Map.empty bs) st s"] show ?case by auto
qed

lemma match_step_ambiguous:
  assumes "2 \<le> length (available st bs (generateKey s))"
  shows "match_step (build_bankTxnMap Map.empty bs) st s = add_unmatched_system s st"
  using assms by (cases "available st bs (generateKey s)") (auto simp: match_step_eq split: list.splits)

lemma match_step_single:
  assumes "available st bs (generateKey s) = [b]" "isExactMatch s b"
  shows "match_step (build_bankTxnMap Map.empty bs) st s = add_match s b st"
  using assms by (simp add: match_step_eq)

lemma available_add_unmatched_system [simp]:
  "available (add_unmatched_system s st) bs k = available st bs k"
  by (simp add: available_def)

lemma run_empty: "match_run [] bs = \<lparr> result = NewMatchResult Name, matchedBankTxns = {} \<rparr>"
  by (simp add: match_run_def)

section \<open>The order of the inputs\<close>

lemma available_mset:
  "mset bs = mset bs' \<Longrightarrow> mset (available st bs k) = mset (available st bs' k)"
  by (simp add: available_def)

lemma singleton_case_mset:
  assumes "mset xs = mset ys"
  shows "(case xs of [] \<Rightarrow> g | [b] \<Rightarrow> f b | b # c # r \<Rightarrow> g) =
         (case ys of [] \<Rightarrow> g | [b] \<Rightarrow> f b | b # c # r \<Rightarrow> g)"
proof (cases "\<exists>b. xs = [b]")
  case True
  then obtain b where "xs = [b]" by blast
  with assms have "ys = [b]" by simp
  with \<open>xs = [b]\<close> show ?thesis by simp
next
  case False
  have "\<not> (\<exists>b. ys = [b])"
  proof
    assume "\<exists>b. ys = [b]"
    then obtain b where "ys = [b]" by blast
    with assms have "xs = [b]" by simp
    with False show False by blast
  qed
  with False show ?thesis
    by (auto split: list.splits)
qed

lemma match_step_bank_perm:
  assumes "mset bs = mset bs'"
  shows "match_step (build_bankTxnMap Map.empty bs) st s =
         match_step (build_bankTxnMap Map.empty bs') st s"
  unfolding match_step_eq
  by (rule singleton_case_mset) (rule available_mset [OF assms])

lemma match_loop_bank_perm:
  assumes "mset bs = mset bs'"
  shows "match_loop (build_bankTxnMap Map.empty bs) st sys =
         match_loop (build_bankTxnMap Map.empty bs') st sys"
proof (induction sys arbitrary: st)
  case Nil
  show ?case by simp
next
  case (Cons s sys)
  have "match_step (build_bankTxnMap Map.empty bs) st s =
        match_step (build_bankTxnMap Map.empty bs') st s"
    using assms by (rule match_step_bank_perm)
  with Cons.IH show ?case by simp
qed

lemma match_run_bank_perm:
  "mset bs = mset bs' \<Longrightarrow> match_run sys bs = match_run sys bs'"
  unfolding match_run_def by (rule match_loop_bank_perm)

lemma Finalize_counts:
  "TotalSystemTxns (Finalize mr) = int (length (Matched mr)) + int (length (UnmatchedSystem mr))"
  "TotalBankTxns (Finalize mr) = int (length (Matched mr)) + int (length (UnmatchedBank mr))"
  "TotalMatched (Finalize mr) = int (length (Matched mr))"
  "MatchRate (Finalize mr) =
     CalculateMatchRate (int (length (Matched mr)))
       (int (length (Matched mr)) + int (length (UnmatchedSystem mr)))
       (int (length (Matched mr)) + int (length (UnmatchedBank mr)))"
  by (simp_all add: Finalize_def Let_def)

lemma Match_MatchRate:
  "MatchRate (fst (Match sys bs)) =
     CalculateMatchRate (int (length (Matched (fst (Match sys bs)))))
       (int (length (Matched (fst (Match sys bs)))) + int (length (UnmatchedSystem (fst (Match sys bs)))))
       (int (length (Matched (fst (Match sys bs)))) + int (length (UnmatchedBank (fst (Match sys bs)))))"
  by (simp add: Match_def Finalize_counts)

lemma Match_bank_perm:
  assumes "mset bs = mset bs'"
  shows "Matched (fst (Match sys bs)) = Matched (fst (Match sys bs'))"
    and "UnmatchedSystem (fst (Match sys bs)) = UnmatchedSystem (fst (Match sys bs'))"
    and "mset (UnmatchedBank (fst (Match sys bs))) = mset (UnmatchedBank (fst (Match sys bs')))"
    and "MatchRate (fst (Match sys bs)) = MatchRate (fst (Match sys bs'))"
proof -
  note run = match_run_bank_perm [OF assms, of sys]
  show m: "Matched (fst (Match sys bs)) = Matched (fst (Match sys bs'))"
    by (simp add: Match_Matched run)
  show u: "UnmatchedSystem (fst (Match sys bs)) = UnmatchedSystem (fst (Match sys bs'))"
    by (simp add: Match_UnmatchedSystem run)
  show b: "mset (UnmatchedBank (fst (Match sys bs))) = mset (UnmatchedBank (fst (Match sys bs')))"
    by (simp add: Match_UnmatchedBank run assms)
  from b have "length (UnmatchedBank (fst (Match sys bs))) = length (UnmatchedBank (fst (Match sys bs')))"
    by (rule mset_eq_length)
  with m u show "MatchRate (fst (Match sys bs)) = MatchRate (fst (Match sys bs'))"
    by (simp add: Match_MatchRate)
qed

lemma claimed_subset: "claimed sys bs \<subseteq> set bs"
  by (auto simp: claimed_def)

lemma claimed_bucket: "b \<in> claimed sys bs \<Longrightarrow> filter (\<lambda>c. generateKey c = generateKey b) bs = [b]"
  by (simp add: claimed_def)

lemma claimed_Nil: "claimed [] bs = {}"
  by (simp add: claimed_def)

lemma claimed_snoc:
  "claimed (pre @ [s]) bs = claimed pre bs \<union>
     {b \<in> set bs. filter (\<lambda>c. generateKey c = generateKey b) bs = [b] \<and>
        generateKey s = generateKey b \<and> isExactMatch s b}"
  by (auto simp: claimed_def)

lemma claimed_by_id:
  assumes "distinct (map ID bs)" "b \<in> set bs" "ID b \<in> ID ` claimed sys bs"
  shows "b \<in> claimed sys bs"
proof -
  from assms(3) obtain c where c: "c \<in> claimed sys bs" "ID b = ID c" by blast
  from assms(1) have "inj_on ID (set bs)" by (simp add: distinct_map)
  moreover from c(1) have "c \<in> set bs" using claimed_subset by blast
  ultimately have "b = c" using assms(2) c(2) by (auto dest: inj_onD)
  with c(1) show ?thesis by simp
qed

lemma single_available_is_bucket:
  assumes d: "distinct (map ID bs)"
    and inv: "matchedBankTxns st = ID ` claimed pre bs"
    and av: "available st bs k = [b]"
  shows "filter (\<lambda>c. generateKey c = k) bs = [b]"
proof -
  let ?B = "filter (\<lambda>c. generateKey c = k) bs"
  have all: "\<forall>c \<in> set ?B. ID c \<notin> matchedBankTxns st"
  proof (rule ccontr)
    assume "\<not> ?thesis"
    then obtain c where c: "c \<in> set bs" "generateKey c = k" "ID c \<in> matchedBankTxns st"
      by auto
    with d inv have "c \<in> claimed pre bs" by (intro claimed_by_id) simp_all
    then have "filter (\<lambda>x. generateKey x = generateKey c) bs = [c]" by (rule claimed_bucket)
    with c(2) have "?B = [c]" by simp
    with c(3) have "available st bs k = []" by (simp add: available_bucket)
    with av show False by simp
  qed
  then have "filter (\<lambda>c. ID c \<notin> matchedBankTxns st) ?B = ?B"
    by (rule filter_True)
  with av show ?thesis by (simp add: available_bucket)
qed

lemma match_step_consumed:
  assumes d: "distinct (map ID bs)"
    and inv: "matchedBankTxns st = ID ` claimed pre bs"
  shows "matchedBankTxns (match_step (build_bankTxnMap Map.empty bs) st s) =
         ID ` claimed (pre @ [s]) bs"
proof -
  let ?N = "{b \<in> set bs. filter (\<lambda>c. generateKey c = generateKey b) bs = [b] \<and>
        generateKey s = generateKey b \<and> isExactMatch s b}"
  show ?thesis
  proof (cases "\<exists>b. available st bs (generateKey s) = [b] \<and> isExactMatch s b")
    case True
    then obtain b where b: "available st bs (generateKey s) = [b]" "isExactMatch s b" by blast
    from d inv b(1) have bucket: "filter (\<lambda>c. generateKey c = generateKey s) bs = [b]"
      by (rule single_available_is_bucket)
    from b(1) have mem: "b \<in> set bs" "generateKey b = generateKey s"
      using available_mem by blast+
    have "?N = {b}"
    proof
      show "?N \<subseteq> {b}"
      proof
        fix n assume "n \<in> ?N"
        then have "filter (\<lambda>c. generateKey c = generateKey s) bs = [n]" by simp
        with bucket show "n \<in> {b}" by simp
      qed
      show "{b} \<subseteq> ?N" using mem bucket b(2) by simp
    qed
    then have "claimed (pre @ [s]) bs = insert b (claimed pre bs)"
      by (simp only: claimed_snoc) blast
    moreover have "match_step (build_bankTxnMap Map.empty bs) st s = add_match s b st"
      using b by (rule match_step_single)
    ultimately show ?thesis by (simp add: inv)
  next
    case False
    then have step: "match_step (build_bankTxnMap Map.empty bs) st s = add_unmatched_system s st"
      using match_step_cases [of bs st s] by blast
    have "?N \<subseteq> claimed pre bs"
    proof
      fix n assume n: "n \<in> ?N"
      then have nb: "n \<in> set bs" "filter (\<lambda>c. generateKey c = generateKey s) bs = [n]"
        "isExactMatch s n" by simp_all
      have "ID n \<in> matchedBankTxns st"
      proof (rule ccontr)
        assume "ID n \<notin> matchedBankTxns st"
        with nb(2) have "available st bs (generateKey s) = [n]" by (simp add: available_bucket)
        with nb(3) False show False by blast
      qed
      with d nb(1) inv show "n \<in> claimed pre bs" by (intro claimed_by_id) simp_all
    qed
    then have "claimed (pre @ [s]) bs = claimed pre bs"
      by (simp only: claimed_snoc) blast
    with step show ?thesis by (simp add: inv)
  qed
qed

lemma match_run_consumed_closed:
  assumes "distinct (map ID bs)"
  shows "matchedBankTxns (match_run sys bs) = ID ` claimed sys bs"
proof (induction sys rule: rev_induct)
  case Nil
  show ?case by (simp add: run_empty claimed_Nil)
next
  case (snoc s pre)
  from assms snoc show ?case
    by (simp only: match_run_snoc match_step_consumed)
qed

lemma claimed_perm: "mset sys = mset sys' \<Longrightarrow> claimed sys bs = claimed sys' bs"
proof -
  assume "mset sys = mset sys'"
  then have "set sys = set sys'" by (rule mset_eq_setD)
  then show ?thesis by (simp add: claimed_def)
qed

lemma Match_lengths:
  "length (Matched (fst (Match sys bs))) = card (matchedBankTxns (match_run sys bs))"
  "length (Matched (fst (Match sys bs))) + length (UnmatchedSystem (fst (Match sys bs))) = length sys"
proof -
  have "card (matchedBankTxns (match_run sys bs)) =
      length (map (\<lambda>p. ID (BankTransaction p)) (Matched (result (match_run sys bs))))"
    using match_run_distinct [of sys bs] by (metis distinct_card)
  then show "length (Matched (fst (Match sys bs))) = card (matchedBankTxns (match_run sys bs))"
    by (simp add: Match_Matched)
  show "length (Matched (fst (Match sys bs))) + length (UnmatchedSystem (fst (Match sys bs))) = length sys"
    using match_loop_system_count [of bs "\<lparr> result = NewMatchResult Name, matchedBankTxns = {} \<rparr>" sys]
    by (simp add: Match_Matched Match_UnmatchedSystem match_run_def NewMatchResult_def)
qed

lemma Match_system_perm:
  assumes "mset sys = mset sys'" "distinct (map ID bs)"
  shows "UnmatchedBank (fst (Match sys bs)) = UnmatchedBank (fst (Match sys' bs))"
    and "length (Matched (fst (Match sys bs))) = length (Matched (fst (Match sys' bs)))"
    and "length (UnmatchedSystem (fst (Match sys bs))) = length (UnmatchedSystem (fst (Match sys' bs)))"
    and "MatchRate (fst (Match sys bs)) = MatchRate (fst (Match sys' bs))"
proof -
  have c: "matchedBankTxns (match_run sys bs) = matchedBankTxns (match_run sys' bs)"
    using assms by (simp add: match_run_consumed_closed claimed_perm [of sys sys'])
  show ub: "UnmatchedBank (fst (Match sys bs)) = UnmatchedBank (fst (Match sys' bs))"
    by (simp add: Match_UnmatchedBank c)
  show m: "length (Matched (fst (Match sys bs))) = length (Matched (fst (Match sys' bs)))"
    by (simp add: Match_lengths(1) c)
  from assms(1) have "length sys = length sys'" by (rule mset_eq_length)
  with m Match_lengths(2) [of sys bs] Match_lengths(2) [of sys' bs]
  show u: "length (UnmatchedSystem (fst (Match sys bs))) = length (UnmatchedSystem (fst (Match sys' bs)))"
    by linarith
  from ub m u show "MatchRate (fst (Match sys bs)) = MatchRate (fst (Match sys' bs))"
    by (simp add: Match_MatchRate)
qed

text \<open>When the system transaction \<open>s\<close> is reached (after the system transactions
  \<open>pre\<close>) and two or more bank transactions with its key have an ID that is not in the
  consumed-set, \<open>s\<close> is appended to \<^verbatim>\<open>UnmatchedSystem\<close> and nothing else changes.\<close>

lemma ambiguous_candidates_left_alone:
  assumes "2 \<le> length (available (match_run pre bankTxns) bankTxns (generateKey s))"
  shows "match_run (pre @ [s]) bankTxns = add_unmatched_system s (match_run pre bankTxns) \<and>
    Matched (result (match_run (pre @ [s]) bankTxns)) = Matched (result (match_run pre bankTxns)) \<and>
    matchedBankTxns (match_run (pre @ [s]) bankTxns) = matchedBankTxns (match_run pre bankTxns) \<and>
    available (match_run (pre @ [s]) bankTxns) bankTxns (generateKey s) =
      available (match_run pre bankTxns) bankTxns (generateKey s) \<and>
    s \<in> set (UnmatchedSystem (fst (Match (pre @ s # post) bankTxns))) \<and>
    UnmatchedBank (fst (Match (pre @ s # post) bankTxns)) =
      filter (\<lambda>b. ID b \<notin> matchedBankTxns (match_run (pre @ s # post) bankTxns)) bankTxns"
proof -
  have step: "match_run (pre @ [s]) bankTxns = add_unmatched_system s (match_run pre bankTxns)"
    using assms by (simp add: match_run_snoc match_step_ambiguous)
  have "s \<in> set (UnmatchedSystem (result (match_run (pre @ [s]) bankTxns)))"
    by (simp add: step)
  moreover have "match_run (pre @ s # post) bankTxns =
      match_loop (build_bankTxnMap Map.empty bankTxns) (match_run (pre @ [s]) bankTxns) post"
    using match_run_append [of "pre @ [s]" post bankTxns] by simp
  ultimately have "s \<in> set (UnmatchedSystem (result (match_run (pre @ s # post) bankTxns)))"
    using match_loop_UnmatchedSystem_mono [of "match_run (pre @ [s]) bankTxns" bankTxns post]
    by auto
  then have "s \<in> set (UnmatchedSystem (fst (Match (pre @ s # post) bankTxns)))"
    by (simp add: Match_UnmatchedSystem)
  with step show ?thesis
    by (simp add: Match_UnmatchedBank)
qed

section \<open>Sizes of the partitions\<close>

lemma match_run_consumed_subset:
  "matchedBankTxns (match_run sys bs) \<subseteq> ID ` set bs"
proof -
  have "matchedBankTxns (match_run sys bs) =
      set (map (\<lambda>p. ID (BankTransaction p)) (Matched (result (match_run sys bs))))"
    by (rule match_run_consumed)
  then show ?thesis
    using match_run_pairs [of sys bs] by auto
qed

lemma length_filter_ids:
  assumes "distinct (map ID bs)" "C \<subseteq> ID ` set bs"
  shows "length (filter (\<lambda>b. ID b \<in> C) bs) = card C"
proof -
  have "distinct (map ID (filter (\<lambda>b. ID b \<in> C) bs))"
    using assms(1) by (simp add: distinct_map_filter)
  then have "card (set (map ID (filter (\<lambda>b. ID b \<in> C) bs))) =
      length (map ID (filter (\<lambda>b. ID b \<in> C) bs))"
    by (rule distinct_card)
  moreover have "set (map ID (filter (\<lambda>b. ID b \<in> C) bs)) = C"
    using assms(2) by auto
  ultimately show ?thesis by simp
qed

lemma Match_system_partition:
  "length (Matched (fst (Match sys bs))) + length (UnmatchedSystem (fst (Match sys bs))) =
     length sys"
  by (rule Match_lengths(2))

lemma Match_bank_partition:
  assumes "distinct (map ID bs)"
  shows "length (Matched (fst (Match sys bs))) + length (UnmatchedBank (fst (Match sys bs))) =
     length bs"
proof -
  let ?C = "matchedBankTxns (match_run sys bs)"
  have "length (filter (\<lambda>b. ID b \<in> ?C) bs) = card ?C"
    using assms match_run_consumed_subset by (rule length_filter_ids)
  moreover have "length (filter (\<lambda>b. ID b \<in> ?C) bs) + length (filter (\<lambda>b. ID b \<notin> ?C) bs) =
      length bs"
    by (rule sum_length_filter_compl)
  ultimately show ?thesis
    by (simp add: Match_lengths(1) Match_UnmatchedBank)
qed

section \<open>Keys: what \<^verbatim>\<open>generateKey\<close> separates\<close>

lemma dec_val_append: "dec_val (xs @ ys) = foldl (\<lambda>a c. 10 * a + (of_char c - 48)) (dec_val xs) ys"
  by (simp add: dec_val_def)

lemma dec_val_snoc: "dec_val (xs @ [c]) = 10 * dec_val xs + (of_char c - 48)"
  by (simp add: dec_val_def)

lemma of_char_digit_char: "d < 10 \<Longrightarrow> of_char (digit_char d) = 48 + d"
  by (simp add: digit_char_def)

lemma dec_val_digits: "dec_val (digits n) = n"
proof (induction n rule: digits.induct)
  case (1 n)
  show ?case
  proof (cases "n < 10")
    case True
    then show ?thesis
      by (subst digits.simps) (simp add: dec_val_def of_char_digit_char)
  next
    case False
    then have "dec_val (digits n) = 10 * dec_val (digits (n div 10)) + (of_char (digit_char (n mod 10)) - 48)"
      by (subst digits.simps) (simp add: dec_val_snoc)
    also have "\<dots> = 10 * (n div 10) + n mod 10"
      using False 1 by (simp add: of_char_digit_char)
    finally show ?thesis by simp
  qed
qed

lemma dec_val_zeros: "dec_val (replicate k CHR ''0'' @ s) = dec_val s"
proof (induction k)
  case 0
  then show ?case by simp
next
  case (Suc k)
  have "dec_val (CHR ''0'' # xs) = dec_val xs" for xs
    by (simp add: dec_val_def)
  with Suc show ?case by simp
qed

lemma digits_chars: "c \<in> set (digits n) \<Longrightarrow> \<exists>d<10. c = digit_char d"
proof (induction n rule: digits.induct)
  case (1 n)
  show ?case
  proof (cases "n < 10")
    case True
    with "1.prems" show ?thesis
      by (subst (asm) digits.simps) auto
  next
    case False
    with "1.prems" have "c \<in> set (digits (n div 10)) \<or> c = digit_char (n mod 10)"
      by (subst (asm) digits.simps) auto
    then show ?thesis
    proof
      assume "c \<in> set (digits (n div 10))"
      with False 1 show ?thesis by simp
    next
      assume "c = digit_char (n mod 10)"
      moreover have "n mod 10 < 10" by simp
      ultimately show ?thesis by blast
    qed
  qed
qed

lemma digit_char_not_sep:
  assumes "d < 10"
  shows "digit_char d \<noteq> CHR ''-''" and "digit_char d \<noteq> CHR ''_''"
proof -
  have h: "of_char (digit_char d) = 48 + d"
    using assms by (rule of_char_digit_char)
  have dash: "of_char CHR ''-'' = (45::nat)" and underscore: "of_char CHR ''_'' = (95::nat)"
    by simp_all
  show "digit_char d \<noteq> CHR ''-''"
  proof
    assume "digit_char d = CHR ''-''"
    with h dash have "48 + d = 45" by (simp only:)
    then show False by arith
  qed
  show "digit_char d \<noteq> CHR ''_''"
  proof
    assume "digit_char d = CHR ''_''"
    with h underscore have "48 + d = 95" by (simp only:)
    with assms show False by arith
  qed
qed

lemma digits_no_sep: "CHR ''-'' \<notin> set (digits n)" "CHR ''_'' \<notin> set (digits n)"
proof -
  show "CHR ''-'' \<notin> set (digits n)"
  proof
    assume "CHR ''-'' \<in> set (digits n)"
    from digits_chars [OF this] obtain d where d: "d < 10" and eq: "CHR ''-'' = digit_char d"
      by (elim exE conjE)
    from d have "digit_char d \<noteq> CHR ''-''" by (rule digit_char_not_sep(1))
    moreover from eq have "digit_char d = CHR ''-''" by (rule sym)
    ultimately show False by (rule notE)
  qed
  show "CHR ''_'' \<notin> set (digits n)"
  proof
    assume "CHR ''_'' \<in> set (digits n)"
    from digits_chars [OF this] obtain d where d: "d < 10" and eq: "CHR ''_'' = digit_char d"
      by (elim exE conjE)
    from d have "digit_char d \<noteq> CHR ''_''" by (rule digit_char_not_sep(2))
    moreover from eq have "digit_char d = CHR ''_''" by (rule sym)
    ultimately show False by (rule notE)
  qed
qed

lemma digits_nonempty: "digits n \<noteq> []"
  by (subst digits.simps) simp

lemma zeros_no_sep:
  "CHR ''-'' \<notin> set (replicate k CHR ''0'')" "CHR ''_'' \<notin> set (replicate k CHR ''0'')"
  by auto

lemma appendInt_split:
  "appendInt x w = (if x < 0 then ''-'' else []) @ (replicate (w - length (digits (nat \<bar>x\<bar>))) CHR ''0'' @ digits (nat \<bar>x\<bar>))"
  by (simp add: appendInt_def Let_def)

lemma padded_no_sep:
  "CHR ''-'' \<notin> set (replicate k CHR ''0'' @ digits n)"
  "CHR ''_'' \<notin> set (replicate k CHR ''0'' @ digits n)"
  using digits_no_sep by auto

lemma padded_nonempty: "replicate k CHR ''0'' @ digits n \<noteq> []"
  using digits_nonempty by simp

lemma appendInt_inj: "appendInt x w = appendInt y w \<Longrightarrow> x = y"
proof -
  assume eq: "appendInt x w = appendInt y w"
  let ?px = "replicate (w - length (digits (nat \<bar>x\<bar>))) CHR ''0'' @ digits (nat \<bar>x\<bar>)"
  let ?py = "replicate (w - length (digits (nat \<bar>y\<bar>))) CHR ''0'' @ digits (nat \<bar>y\<bar>)"
  have hx: "hd ?px \<noteq> CHR ''-''"
    using padded_no_sep(1) padded_nonempty by (metis hd_in_set)
  have hy: "hd ?py \<noteq> CHR ''-''"
    using padded_no_sep(1) padded_nonempty by (metis hd_in_set)
  have sign: "x < 0 \<longleftrightarrow> y < 0"
  proof (rule ccontr)
    assume "\<not> ?thesis"
    then consider "x < 0" "\<not> y < 0" | "\<not> x < 0" "y < 0" by blast
    then show False
    proof cases
      case 1
      with eq have "CHR ''-'' # ?px = ?py" by (simp add: appendInt_split)
      then have "hd ?py = CHR ''-''" by (metis list.sel(1))
      with hy show False by simp
    next
      case 2
      with eq have "?px = CHR ''-'' # ?py" by (simp add: appendInt_split)
      then have "hd ?px = CHR ''-''" by (metis list.sel(1))
      with hx show False by simp
    qed
  qed
  with eq have "?px = ?py" by (simp add: appendInt_split split: if_splits)
  then have "dec_val ?px = dec_val ?py" by simp
  then have "nat \<bar>x\<bar> = nat \<bar>y\<bar>" by (simp only: dec_val_zeros dec_val_digits)
  with sign show "x = y" by linarith
qed

lemma appendInt_no_underscore: "CHR ''_'' \<notin> set (appendInt x w)"
  using padded_no_sep(2) by (simp add: appendInt_split del: set_append)

lemma appendInt_nat_no_dash: "CHR ''-'' \<notin> set (appendInt (int n) w)"
  using padded_no_sep(1) by (simp add: appendInt_split del: set_append)

text \<open>Splitting a string at the first, or the last, occurrence of a separator.\<close>

lemma split_at_first:
  "c \<notin> set xs \<Longrightarrow> c \<notin> set ys \<Longrightarrow> xs @ c # r = ys @ c # r' \<Longrightarrow> xs = ys \<and> r = r'"
proof (induction xs arbitrary: ys)
  case Nil
  then show ?case by (cases ys) auto
next
  case (Cons x xs)
  then show ?case by (cases ys) auto
qed

lemma split_at_last:
  assumes "c \<notin> set xs" "c \<notin> set ys" "r @ c # xs = r' @ c # ys"
  shows "xs = ys \<and> r = r'"
proof -
  from assms(3) have "rev (r @ c # xs) = rev (r' @ c # ys)" by simp
  then have "rev xs @ c # rev r = rev ys @ c # rev r'" by simp
  with assms(1,2) have "rev xs = rev ys \<and> rev r = rev r'"
    by (intro split_at_first [of c]) simp_all
  then show ?thesis by simp
qed

lemma Format_date_inj:
  "Format_date t1 = Format_date t2 \<longleftrightarrow> isSameDay t1 t2"
proof
  assume eq: "Format_date t1 = Format_date t2"
  let ?Y1 = "appendInt (t_year t1) 4" and ?Y2 = "appendInt (t_year t2) 4"
  let ?M1 = "appendInt (int (t_month t1)) 2" and ?M2 = "appendInt (int (t_month t2)) 2"
  let ?D1 = "appendInt (int (t_day t1)) 2" and ?D2 = "appendInt (int (t_day t2)) 2"
  from eq have "(?Y1 @ CHR ''-'' # ?M1) @ CHR ''-'' # ?D1 = (?Y2 @ CHR ''-'' # ?M2) @ CHR ''-'' # ?D2"
    by (simp add: Format_date_def)
  then have d: "?D1 = ?D2" and "?Y1 @ CHR ''-'' # ?M1 = ?Y2 @ CHR ''-'' # ?M2"
    using split_at_last [OF appendInt_nat_no_dash appendInt_nat_no_dash] by blast+
  then have m: "?M1 = ?M2" and y: "?Y1 = ?Y2"
    using split_at_last [OF appendInt_nat_no_dash appendInt_nat_no_dash] by blast+
  from d m y show "isSameDay t1 t2"
    by (auto simp: isSameDay_def dest: appendInt_inj)
next
  assume "isSameDay t1 t2"
  then show "Format_date t1 = Format_date t2"
    by (simp add: isSameDay_def Format_date_def)
qed

lemma Format_date_no_underscore: "CHR ''_'' \<notin> set (Format_date t)"
  using appendInt_no_underscore by (simp add: Format_date_def)

lemma generateKey_eq_iff:
  "generateKey a = generateKey b \<longleftrightarrow>
     isSameDay (TransactionDate a) (TransactionDate b) \<and> IsDebit a = IsDebit b \<and>
     formatAmount (AbsAmount a) = formatAmount (AbsAmount b)"
proof
  assume eq: "generateKey a = generateKey b"
  let ?ta = "if IsDebit a then ''debit'' else ''credit''"
  let ?tb = "if IsDebit b then ''debit'' else ''credit''"
  from eq have "Format_date (TransactionDate a) @ CHR ''_'' # (?ta @ ''_'' @ formatAmount (AbsAmount a)) =
                Format_date (TransactionDate b) @ CHR ''_'' # (?tb @ ''_'' @ formatAmount (AbsAmount b))"
    by (simp add: generateKey_def Let_def)
  then have dr: "Format_date (TransactionDate a) = Format_date (TransactionDate b) \<and>
      ?ta @ ''_'' @ formatAmount (AbsAmount a) = ?tb @ ''_'' @ formatAmount (AbsAmount b)"
    by (rule split_at_first [OF Format_date_no_underscore Format_date_no_underscore])
  then have "IsDebit a = IsDebit b \<and> formatAmount (AbsAmount a) = formatAmount (AbsAmount b)"
    by (simp split: if_splits)
  moreover from dr have "isSameDay (TransactionDate a) (TransactionDate b)"
    using Format_date_inj by blast
  ultimately show "isSameDay (TransactionDate a) (TransactionDate b) \<and> IsDebit a = IsDebit b \<and>
     formatAmount (AbsAmount a) = formatAmount (AbsAmount b)"
    by simp
next
  assume h: "isSameDay (TransactionDate a) (TransactionDate b) \<and> IsDebit a = IsDebit b \<and>
     formatAmount (AbsAmount a) = formatAmount (AbsAmount b)"
  then have "Format_date (TransactionDate a) = Format_date (TransactionDate b)"
    using Format_date_inj by blast
  with h show "generateKey a = generateKey b"
    by (simp add: generateKey_def Let_def)
qed

subsection \<open>The amount part: UTF-8 of a valid code point\<close>

lemma char_of_byte_inj:
  "a < 256 \<Longrightarrow> b < 256 \<Longrightarrow> char_of (a::nat) = char_of b \<Longrightarrow> a = b"
  by simp

lemma utf8_encode_length:
  "length (utf8_encode n) = (if n < 0x80 then 1 else if n < 0x800 then 2 else if n < 0x10000 then 3 else 4)"
  by (simp add: utf8_encode_def)

lemma utf8_1: "n < 0x80 \<Longrightarrow> m < 0x80 \<Longrightarrow> utf8_encode n = utf8_encode m \<Longrightarrow> n = m"
  by (simp add: utf8_encode_def char_of_byte_inj)

lemma utf8_2:
  assumes "\<not> n < 0x80" "n < 0x800" "\<not> m < 0x80" "m < 0x800" "utf8_encode n = utf8_encode m"
  shows "n = m"
proof -
  from assms have "char_of (0xC0 + n div 64) = char_of (0xC0 + m div 64)"
    and "char_of (0x80 + n mod 64) = char_of (0x80 + m mod 64)"
    by (simp_all add: utf8_encode_def)
  moreover have "0xC0 + n div 64 < 256" "0xC0 + m div 64 < 256" using assms by simp_all
  moreover have "0x80 + n mod 64 < 256" "0x80 + m mod 64 < 256" by simp_all
  ultimately have "0xC0 + n div 64 = 0xC0 + m div 64" "0x80 + n mod 64 = 0x80 + m mod 64"
    by (blast intro: char_of_byte_inj)+
  then have "n div 64 = m div 64" "n mod 64 = m mod 64" by simp_all
  then show ?thesis by (metis div_mult_mod_eq)
qed


lemma utf8_3:
  assumes "\<not> n < 0x800" "n < 0x10000" "\<not> m < 0x800" "m < 0x10000"
    "utf8_encode n = utf8_encode m"
  shows "n = m"
proof -
  from assms have "char_of (0xE0 + n div 4096) = char_of (0xE0 + m div 4096)"
    and "char_of (0x80 + n div 64 mod 64) = char_of (0x80 + m div 64 mod 64)"
    and "char_of (0x80 + n mod 64) = char_of (0x80 + m mod 64)"
    by (simp_all add: utf8_encode_def)
  moreover have "0xE0 + n div 4096 < 256" "0xE0 + m div 4096 < 256" using assms by simp_all
  moreover have "0x80 + n div 64 mod 64 < 256" "0x80 + m div 64 mod 64 < 256" by simp_all
  moreover have "0x80 + n mod 64 < 256" "0x80 + m mod 64 < 256" by simp_all
  ultimately have "0xE0 + n div 4096 = 0xE0 + m div 4096"
    "0x80 + n div 64 mod 64 = 0x80 + m div 64 mod 64" "0x80 + n mod 64 = 0x80 + m mod 64"
    by (blast intro: char_of_byte_inj)+
  then have a: "n div 4096 = m div 4096" and b: "n div 64 mod 64 = m div 64 mod 64"
    and c: "n mod 64 = m mod 64" by simp_all
  have "n div 64 div 64 = m div 64 div 64"
    using a by (simp add: div_mult2_eq [symmetric])
  with b have "n div 64 = m div 64" by (metis div_mult_mod_eq)
  with c show ?thesis by (metis div_mult_mod_eq)
qed

lemma utf8_4:
  assumes "\<not> n < 0x10000" "n \<le> 0x10FFFF" "\<not> m < 0x10000" "m \<le> 0x10FFFF"
    "utf8_encode n = utf8_encode m"
  shows "n = m"
proof -
  from assms have "char_of (0xF0 + n div 262144) = char_of (0xF0 + m div 262144)"
    and "char_of (0x80 + n div 4096 mod 64) = char_of (0x80 + m div 4096 mod 64)"
    and "char_of (0x80 + n div 64 mod 64) = char_of (0x80 + m div 64 mod 64)"
    and "char_of (0x80 + n mod 64) = char_of (0x80 + m mod 64)"
    by (simp_all add: utf8_encode_def)
  moreover have "0xF0 + n div 262144 < 256" "0xF0 + m div 262144 < 256" using assms by simp_all
  moreover have "0x80 + n div 4096 mod 64 < 256" "0x80 + m div 4096 mod 64 < 256" by simp_all
  moreover have "0x80 + n div 64 mod 64 < 256" "0x80 + m div 64 mod 64 < 256" by simp_all
  moreover have "0x80 + n mod 64 < 256" "0x80 + m mod 64 < 256" by simp_all
  ultimately have "0xF0 + n div 262144 = 0xF0 + m div 262144"
    "0x80 + n div 4096 mod 64 = 0x80 + m div 4096 mod 64"
    "0x80 + n div 64 mod 64 = 0x80 + m div 64 mod 64" "0x80 + n mod 64 = 0x80 + m mod 64"
    by (blast intro: char_of_byte_inj)+
  then have a: "n div 262144 = m div 262144" and b: "n div 4096 mod 64 = m div 4096 mod 64"
    and c: "n div 64 mod 64 = m div 64 mod 64" and d: "n mod 64 = m mod 64" by simp_all
  have "n div 4096 div 64 = m div 4096 div 64"
    using a by (simp add: div_mult2_eq [symmetric])
  with b have "n div 4096 = m div 4096" by (metis div_mult_mod_eq)
  then have "n div 64 div 64 = m div 64 div 64"
    by (simp add: div_mult2_eq [symmetric])
  with c have "n div 64 = m div 64" by (metis div_mult_mod_eq)
  with d show ?thesis by (metis div_mult_mod_eq)
qed

lemma utf8_encode_inj:
  assumes "n \<le> 0x10FFFF" "m \<le> 0x10FFFF" "utf8_encode n = utf8_encode m"
  shows "n = m"
proof -
  from assms(3) have len: "length (utf8_encode n) = length (utf8_encode m)" by simp
  consider "n < 0x80" | "\<not> n < 0x80" "n < 0x800" | "\<not> n < 0x800" "n < 0x10000" | "\<not> n < 0x10000"
    by linarith
  then show ?thesis
  proof cases
    case 1
    with len have "m < 0x80" by (simp add: utf8_encode_length split: if_splits)
    with 1 assms(3) show ?thesis by (intro utf8_1)
  next
    case 2
    with len have "\<not> m < 0x80" "m < 0x800" by (simp_all add: utf8_encode_length split: if_splits)
    with 2 assms(3) show ?thesis by (intro utf8_2)
  next
    case 3
    with len have "\<not> m < 0x800" "m < 0x10000" by (simp_all add: utf8_encode_length split: if_splits)
    with 3 assms(3) show ?thesis by (intro utf8_3)
  next
    case 4
    with len have "\<not> m < 0x10000" by (simp_all add: utf8_encode_length split: if_splits)
    with 4 assms show ?thesis by (intro utf8_4)
  qed
qed

lemma string_of_rune_inj:
  "valid_rune r \<Longrightarrow> valid_rune r' \<Longrightarrow> string_of_rune r = string_of_rune r' \<Longrightarrow> r = r'"
proof -
  assume v: "valid_rune r" "valid_rune r'" and eq: "string_of_rune r = string_of_rune r'"
  then have "utf8_encode (nat r) = utf8_encode (nat r')" by (simp add: string_of_rune_def)
  moreover from v have "nat r \<le> 0x10FFFF" "nat r' \<le> 0x10FFFF"
    by (auto simp: valid_rune_def)
  ultimately have "nat r = nat r'" by (intro utf8_encode_inj)
  with v show ?thesis by (auto simp: valid_rune_def)
qed

lemma rune_of_int_id: "0 \<le> n \<Longrightarrow> n < 2 ^ 31 \<Longrightarrow> rune_of_int n = n"
  by (simp add: rune_of_int_def)

lemma valid_rune_small: "valid_rune n \<Longrightarrow> rune_of_int n = n"
  by (simp add: valid_rune_def rune_of_int_def)

text \<open>A cent count that is no valid code point (above \<open>0x10FFFF\<close>, or a surrogate) is
  written as U+FFFD, so all such amounts have the same amount part in their keys.\<close>

lemma formatAmount_invalid_rune:
  "\<not> valid_rune (rune_of_int (go_int (f64_mul x 100))) \<Longrightarrow>
     formatAmount x = [CHR 0xEF, CHR 0xBF, CHR 0xBD]"
  by (simp add: formatAmount_def string_of_rune_def utf8_encode_def char_of_eq_iff)

lemmas f64_defs =
  f64_mul_def f64_round_def f64_exponent_def pow2_def round_half_even_def compute_bitlen

lemma formatAmount_large_amounts: "formatAmount 20000 = formatAmount 30000"
  by (simp add: formatAmount_invalid_rune go_int_def rune_of_int_def valid_rune_def f64_defs
      Let_def)

text \<open>A product beyond the 64-bit range is converted to \<open>-2^63\<close>, whose low 32 bits are
  zero: the amount part of the key is the NUL character.\<close>

lemma formatAmount_out_of_range: "formatAmount (10 ^ 20) = [CHR 0x00]"
  by (simp add: formatAmount_def go_int_def rune_of_int_def string_of_rune_def valid_rune_def
      utf8_encode_def char_of_eq_iff f64_defs Let_def)

lemma formatAmount_cents_iff:
  assumes "valid_rune (cents a)" "valid_rune (cents b)"
  shows "formatAmount (AbsAmount a) = formatAmount (AbsAmount b) \<longleftrightarrow> cents a = cents b"
proof
  assume "formatAmount (AbsAmount a) = formatAmount (AbsAmount b)"
  then have "string_of_rune (cents a) = string_of_rune (cents b)"
    using assms by (simp add: formatAmount_def cents_def valid_rune_small)
  with assms show "cents a = cents b" by (intro string_of_rune_inj)
next
  assume "cents a = cents b"
  then show "formatAmount (AbsAmount a) = formatAmount (AbsAmount b)"
    by (simp add: formatAmount_def cents_def)
qed

section \<open>The example transactions\<close>

lemmas example_defs =
  sys_debit_150_def sys_debit_150_other_def bank_debit_150_def bank_debit_150_other_def
  bank_bca_tx1_def bank_mandiri_tx1_def sys_debit_zero_def sys_credit_1_def bank_credit_1_def
  bank_credit_1_frac_def raw_debit_positive_def raw_credit_negative_def bank_bni_tx2_def
  sys_debit_75_def sys_debit_2500000_def bank_debit_2500000_def bank_debit_3000000_def
  createSystemTransaction_def createBankTransaction_def NewTransaction_def NormalizeAmount_def
  TransactionTypeDebit_def TransactionTypeCredit_def SourceTypeSystem_def SourceTypeBank_def
  date_0315_def clock_0_def

lemmas key_defs =
  Format_date_def appendInt_def digits.simps digit_char_def IsDebit_def Let_def char_of_eq_iff

lemmas amount_defs =
  formatAmount_def go_int_def rune_of_int_def string_of_rune_def valid_rune_def
  utf8_encode_def char_of_eq_iff f64_defs Let_def

lemmas predicate_defs =
  isExactMatch_def isSameDay_def amountsEqual_def calculateDiscrepancy_def IsDebit_def
  AbsAmount_def

text \<open>The amount part of the keys: the products are \<open>15050\<close>, \<open>7525\<close>, \<open>100\<close>,
  \<open>100 + 25/256\<close>, \<open>250000000\<close> and \<open>300000000\<close>, all of them \<^verbatim>\<open>float64\<close> values, so the
  rounding leaves them as they are.\<close>

lemma example_formats:
  "formatAmount 150.5 = [CHR 0xE3, CHR 0xAB, CHR 0x8A]"
  "formatAmount 75.25 = [CHR 0xE1, CHR 0xB5, CHR 0xA5]"
  "formatAmount 1 = ''d''"
  "formatAmount (1 + 1 / 1024) = ''d''"
  "formatAmount 2500000 = [CHR 0xEF, CHR 0xBF, CHR 0xBD]"
  "formatAmount 3000000 = [CHR 0xEF, CHR 0xBF, CHR 0xBD]"
  by (simp_all add: amount_defs)

lemma example_abs:
  "AbsAmount sys_debit_150 = 150.5" "AbsAmount sys_debit_150_other = 150.5"
  "AbsAmount bank_debit_150 = 150.5" "AbsAmount bank_debit_150_other = 150.5"
  "AbsAmount bank_bca_tx1 = 150.5" "AbsAmount bank_bni_tx2 = 150.5"
  "AbsAmount bank_mandiri_tx1 = 75.25" "AbsAmount sys_debit_75 = 75.25"
  "AbsAmount sys_credit_1 = 1" "AbsAmount bank_credit_1 = 1"
  "AbsAmount bank_credit_1_frac = 1 + 1 / 1024"
  "AbsAmount sys_debit_2500000 = 2500000" "AbsAmount bank_debit_2500000 = 2500000"
  "AbsAmount bank_debit_3000000 = 3000000"
  by (simp_all add: AbsAmount_def example_defs)

lemma key_debit_150:
  "generateKey sys_debit_150 = ''2024-03-15_debit_'' @ [CHR 0xE3, CHR 0xAB, CHR 0x8A]"
  "generateKey sys_debit_150_other = ''2024-03-15_debit_'' @ [CHR 0xE3, CHR 0xAB, CHR 0x8A]"
  "generateKey bank_debit_150 = ''2024-03-15_debit_'' @ [CHR 0xE3, CHR 0xAB, CHR 0x8A]"
  "generateKey bank_debit_150_other = ''2024-03-15_debit_'' @ [CHR 0xE3, CHR 0xAB, CHR 0x8A]"
  "generateKey bank_bca_tx1 = ''2024-03-15_debit_'' @ [CHR 0xE3, CHR 0xAB, CHR 0x8A]"
  "generateKey bank_bni_tx2 = ''2024-03-15_debit_'' @ [CHR 0xE3, CHR 0xAB, CHR 0x8A]"
  apply (simp_all only: generateKey_def Let_def example_abs example_formats)
  apply (simp_all add: key_defs example_defs)
  done

lemma key_mandiri_tx1:
  "generateKey bank_mandiri_tx1 = ''2024-03-15_debit_'' @ [CHR 0xE1, CHR 0xB5, CHR 0xA5]"
  "generateKey sys_debit_75 = ''2024-03-15_debit_'' @ [CHR 0xE1, CHR 0xB5, CHR 0xA5]"
  apply (simp_all only: generateKey_def Let_def example_abs example_formats)
  apply (simp_all add: key_defs example_defs)
  done

lemma key_credit_1:
  "generateKey sys_credit_1 = ''2024-03-15_credit_d''"
  "generateKey bank_credit_1 = ''2024-03-15_credit_d''"
  "generateKey bank_credit_1_frac = ''2024-03-15_credit_d''"
  apply (simp_all only: generateKey_def Let_def example_abs example_formats)
  apply (simp_all add: key_defs example_defs)
  done

lemma key_large_debits:
  "generateKey sys_debit_2500000 = ''2024-03-15_debit_'' @ [CHR 0xEF, CHR 0xBF, CHR 0xBD]"
  "generateKey bank_debit_2500000 = ''2024-03-15_debit_'' @ [CHR 0xEF, CHR 0xBF, CHR 0xBD]"
  "generateKey bank_debit_3000000 = ''2024-03-15_debit_'' @ [CHR 0xEF, CHR 0xBF, CHR 0xBD]"
  apply (simp_all only: generateKey_def Let_def example_abs example_formats)
  apply (simp_all add: key_defs example_defs)
  done

lemma example_ids:
  "ID sys_debit_150 = ''SYS001''" "ID sys_debit_150_other = ''SYS002''"
  "ID bank_debit_150 = ''BANK001''" "ID bank_debit_150_other = ''BANK002''"
  "ID bank_bca_tx1 = ''TX001''" "ID bank_mandiri_tx1 = ''TX001''"
  "ID sys_credit_1 = ''SYS004''" "ID bank_credit_1_frac = ''BANK004''"
  "ID bank_bni_tx2 = ''TX002''" "ID sys_debit_75 = ''SYS007''"
  "ID sys_debit_2500000 = ''SYS008''" "ID bank_debit_2500000 = ''BANK005''"
  "ID bank_debit_3000000 = ''BANK006''"
  by (simp_all add: example_defs)

lemma example_exact_matches:
  "isExactMatch sys_debit_150 bank_debit_150"
  "isExactMatch sys_debit_150_other bank_debit_150"
  "isExactMatch sys_debit_150 bank_bca_tx1"
  "isExactMatch sys_credit_1 bank_credit_1_frac"
  "isExactMatch sys_debit_75 bank_mandiri_tx1"
  "isExactMatch sys_debit_150 bank_bni_tx2"
  "isExactMatch sys_debit_2500000 bank_debit_2500000"
  "\<not> isExactMatch sys_debit_2500000 bank_debit_3000000"
  by (simp_all add: predicate_defs example_defs)

lemma example_discrepancies:
  "calculateDiscrepancy sys_debit_150 bank_debit_150 = 0"
  "calculateDiscrepancy sys_debit_150_other bank_debit_150 = 0"
  "calculateDiscrepancy sys_debit_150 bank_bca_tx1 = 0"
  "calculateDiscrepancy sys_credit_1 bank_credit_1_frac = 1 / 1024"
  "calculateDiscrepancy sys_debit_75 bank_mandiri_tx1 = 0"
  "calculateDiscrepancy sys_debit_150 bank_bni_tx2 = 0"
  by (simp_all add: predicate_defs example_defs)

lemmas run_defs = match_run_def match_step_def NewMatchResult_def Let_def

lemmas example_facts =
  key_debit_150 key_mandiri_tx1 key_credit_1 key_large_debits example_ids example_exact_matches
  example_discrepancies

lemma Match_credit_fraction:
  "Matched (fst (Match [sys_credit_1] [bank_credit_1_frac])) =
     [\<lparr> SystemTransaction = sys_credit_1, BankTransaction = bank_credit_1_frac,
        ConfidenceScore = 100, AmountDiscrepancy = 1 / 1024 \<rparr>]"
  by (simp add: Match_Matched run_defs example_facts)

lemma Match_debit_150:
  "Matched (fst (Match [sys_debit_150] [bank_debit_150])) =
     [\<lparr> SystemTransaction = sys_debit_150, BankTransaction = bank_debit_150,
        ConfidenceScore = 100, AmountDiscrepancy = 0 \<rparr>]"
  by (simp add: Match_Matched run_defs example_facts)

lemma Match_two_systems_two_banks:
  "Matched (fst (Match [sys_debit_150, sys_debit_150_other] [bank_debit_150, bank_mandiri_tx1])) =
     [\<lparr> SystemTransaction = sys_debit_150, BankTransaction = bank_debit_150,
        ConfidenceScore = 100, AmountDiscrepancy = 0 \<rparr>]"
  "UnmatchedSystem (fst (Match [sys_debit_150, sys_debit_150_other] [bank_debit_150, bank_mandiri_tx1])) =
     [sys_debit_150_other]"
  "UnmatchedBank (fst (Match [sys_debit_150, sys_debit_150_other] [bank_debit_150, bank_mandiri_tx1])) =
     [bank_mandiri_tx1]"
  by (simp_all add: Match_Matched Match_UnmatchedSystem Match_UnmatchedBank run_defs example_facts)

text \<open>The key holds the whole cents: a credit of 1 and a credit of \<open>1 + 1/1024\<close> on the
  same day are in the same bucket.\<close>

lemma same_key_below_one_cent:
  "build_bankTxnMap Map.empty [bank_credit_1, bank_credit_1_frac] (generateKey bank_credit_1) =
     Some [bank_credit_1, bank_credit_1_frac] \<and>
   generateKey bank_credit_1 = generateKey bank_credit_1_frac \<and>
   AbsAmount bank_credit_1 \<noteq> AbsAmount bank_credit_1_frac"
  by (simp add: example_facts) (simp add: example_defs AbsAmount_def)

lemma Match_shared_id_three_banks:
  "Matched (result (match_run [sys_debit_75] [bank_bca_tx1, bank_mandiri_tx1, bank_bni_tx2])) =
     [\<lparr> SystemTransaction = sys_debit_75, BankTransaction = bank_mandiri_tx1,
        ConfidenceScore = 100, AmountDiscrepancy = 0 \<rparr>]"
  "Matched (fst (Match [sys_debit_75, sys_debit_150]
      [bank_bca_tx1, bank_mandiri_tx1, bank_bni_tx2])) =
     [\<lparr> SystemTransaction = sys_debit_75, BankTransaction = bank_mandiri_tx1,
        ConfidenceScore = 100, AmountDiscrepancy = 0 \<rparr>,
      \<lparr> SystemTransaction = sys_debit_150, BankTransaction = bank_bni_tx2,
        ConfidenceScore = 100, AmountDiscrepancy = 0 \<rparr>]"
  "UnmatchedSystem (fst (Match [sys_debit_75, sys_debit_150]
      [bank_bca_tx1, bank_mandiri_tx1, bank_bni_tx2])) = []"
  "UnmatchedBank (fst (Match [sys_debit_75, sys_debit_150]
      [bank_bca_tx1, bank_mandiri_tx1, bank_bni_tx2])) = []"
  by (simp_all add: Match_Matched Match_UnmatchedSystem Match_UnmatchedBank run_defs example_facts)

lemma Match_large_debits:
  "build_bankTxnMap Map.empty [bank_debit_2500000, bank_debit_3000000]
     (generateKey sys_debit_2500000) = Some [bank_debit_2500000, bank_debit_3000000]"
  "Matched (fst (Match [sys_debit_2500000] [bank_debit_2500000, bank_debit_3000000])) = []"
  "UnmatchedSystem (fst (Match [sys_debit_2500000] [bank_debit_2500000, bank_debit_3000000])) =
     [sys_debit_2500000]"
  "UnmatchedBank (fst (Match [sys_debit_2500000] [bank_debit_2500000, bank_debit_3000000])) =
     [bank_debit_2500000, bank_debit_3000000]"
  by (simp_all add: Match_Matched Match_UnmatchedSystem Match_UnmatchedBank run_defs example_facts)

section \<open>Claims\<close>

text \<open>
  C1 (partition completeness). The system side is complete for every input
  (\<open>Match_system_partition\<close>), the bank side when the bank IDs are pairwise different
  (\<open>Match_bank_partition\<close>). Consumption is recorded by ID, so when two bank rows carry the
  same ID and one of them is matched, the final loop skips both. Here a BCA row and a
  MANDIRI row share the identifier TX001; the system debit is paired with the BCA row, the
  MANDIRI row is in no partition, and \<open>|Matched| + |UnmatchedBank| = 1\<close> for two bank
  transactions.
\<close>

theorem C1_bank_row_with_shared_id_dropped:
  "Matched (fst (Match [sys_debit_150] [bank_bca_tx1, bank_mandiri_tx1])) =
     [\<lparr> SystemTransaction = sys_debit_150, BankTransaction = bank_bca_tx1,
        ConfidenceScore = 100, AmountDiscrepancy = 0 \<rparr>] \<and>
   UnmatchedSystem (fst (Match [sys_debit_150] [bank_bca_tx1, bank_mandiri_tx1])) = [] \<and>
   UnmatchedBank (fst (Match [sys_debit_150] [bank_bca_tx1, bank_mandiri_tx1])) = [] \<and>
   length (Matched (fst (Match [sys_debit_150] [bank_bca_tx1, bank_mandiri_tx1]))) +
     length (UnmatchedBank (fst (Match [sys_debit_150] [bank_bca_tx1, bank_mandiri_tx1]))) = 1 \<and>
   length [bank_bca_tx1, bank_mandiri_tx1] = 2 \<and>
   TotalBankTxns (fst (Match [sys_debit_150] [bank_bca_tx1, bank_mandiri_tx1])) = 1"
  by (simp add: Match_def collect_unmatched_bank_eq Finalize_def run_defs example_facts)

text \<open>
  C2 (ambiguity conservatism). The filter over the candidates tests the ID, not the
  transaction. The BCA row and the MANDIRI row share the identifier TX001; the BNI row
  TX002 has the key of the BCA row. The system debit of 75.25 is paired with the MANDIRI
  row. When the system debit of 150.50 is reached, the BCA row and the BNI row have its
  key and neither is in a pair, yet the BCA row is filtered out by its ID and the debit
  is paired with the BNI row instead of going to \<^verbatim>\<open>UnmatchedSystem\<close>; the BCA row is
  in no partition of the result.
\<close>

theorem C2_unpaired_candidates_with_shared_id:
  "generateKey bank_bca_tx1 = generateKey sys_debit_150 \<and>
   generateKey bank_bni_tx2 = generateKey sys_debit_150 \<and>
   map BankTransaction
     (Matched (result (match_run [sys_debit_75] [bank_bca_tx1, bank_mandiri_tx1, bank_bni_tx2]))) =
     [bank_mandiri_tx1] \<and>
   bank_bca_tx1 \<noteq> bank_mandiri_tx1 \<and> bank_bni_tx2 \<noteq> bank_mandiri_tx1 \<and>
   Matched (fst (Match [sys_debit_75, sys_debit_150]
      [bank_bca_tx1, bank_mandiri_tx1, bank_bni_tx2])) =
     [\<lparr> SystemTransaction = sys_debit_75, BankTransaction = bank_mandiri_tx1,
        ConfidenceScore = 100, AmountDiscrepancy = 0 \<rparr>,
      \<lparr> SystemTransaction = sys_debit_150, BankTransaction = bank_bni_tx2,
        ConfidenceScore = 100, AmountDiscrepancy = 0 \<rparr>] \<and>
   UnmatchedSystem (fst (Match [sys_debit_75, sys_debit_150]
      [bank_bca_tx1, bank_mandiri_tx1, bank_bni_tx2])) = [] \<and>
   UnmatchedBank (fst (Match [sys_debit_75, sys_debit_150]
      [bank_bca_tx1, bank_mandiri_tx1, bank_bni_tx2])) = []"
proof -
  have "bank_bca_tx1 \<noteq> bank_mandiri_tx1" "bank_bni_tx2 \<noteq> bank_mandiri_tx1"
    by (simp_all add: example_defs)
  then show ?thesis
    by (simp add: Match_shared_id_three_banks key_debit_150)
qed

text \<open>
  C3 (bucketing). \<^verbatim>\<open>formatAmount\<close> writes the cent count as one rune, where the
  comment of \<^verbatim>\<open>generateKey\<close> shows its decimal digits. A count beyond \<open>0x10FFFF\<close> is no
  code point and is written as U+FFFD, so bank debits of 2,500,000 and of 3,000,000 on the
  same day have the same key and share a bucket. The system debit of 2,500,000 sees two
  candidates, of which only the first passes \<^verbatim>\<open>isExactMatch\<close>, and stays unmatched.
\<close>

theorem C3_large_amounts_share_a_bucket:
  "AbsAmount bank_debit_2500000 = 2500000 \<and> AbsAmount bank_debit_3000000 = 3000000 \<and>
   generateKey bank_debit_2500000 = generateKey bank_debit_3000000 \<and>
   build_bankTxnMap Map.empty [bank_debit_2500000, bank_debit_3000000]
     (generateKey sys_debit_2500000) = Some [bank_debit_2500000, bank_debit_3000000] \<and>
   isExactMatch sys_debit_2500000 bank_debit_2500000 \<and>
   \<not> isExactMatch sys_debit_2500000 bank_debit_3000000 \<and>
   Matched (fst (Match [sys_debit_2500000] [bank_debit_2500000, bank_debit_3000000])) = [] \<and>
   UnmatchedSystem (fst (Match [sys_debit_2500000] [bank_debit_2500000, bank_debit_3000000])) =
     [sys_debit_2500000] \<and>
   UnmatchedBank (fst (Match [sys_debit_2500000] [bank_debit_2500000, bank_debit_3000000])) =
     [bank_debit_2500000, bank_debit_3000000]"
  by (simp add: Match_large_debits example_abs key_large_debits example_exact_matches)

text \<open>
  C4 (confidence and discrepancy), as stated: every emitted pair has discrepancy 0. A
  credit of 1 and a credit of \<open>1 + 1/1024\<close> on the same day have the same key (the key
  holds the whole cents, 100 for both) and pass \<^verbatim>\<open>amountsEqual\<close>, so they are paired
  with discrepancy \<open>1/1024\<close>.
\<close>

theorem C4_nonzero_discrepancy_counterexample:
  "map AmountDiscrepancy (Matched (fst (Match [sys_credit_1] [bank_credit_1_frac]))) = [1 / 1024] \<and>
   (1 / 1024 :: real) \<noteq> 0"
  by (simp add: Match_credit_fraction)

text \<open>
  C4, amended: every pair emitted by \<^verbatim>\<open>Match\<close> has confidence 100 and a discrepancy
  that is the absolute difference of the two absolute amounts, not negative and strictly
  below 0.001; it is 0 whenever the two absolute amounts are equal.
\<close>

theorem C4_confidence_and_discrepancy:
  "\<forall>p \<in> set (Matched (fst (Match systemTxns bankTxns))).
     ConfidenceScore p = 100 \<and>
     AmountDiscrepancy p = \<bar>AbsAmount (SystemTransaction p) - AbsAmount (BankTransaction p)\<bar> \<and>
     0 \<le> AmountDiscrepancy p \<and> AmountDiscrepancy p < 0.001 \<and>
     (AbsAmount (SystemTransaction p) = AbsAmount (BankTransaction p) \<longrightarrow> AmountDiscrepancy p = 0)"
  using match_run_pairs [of systemTxns bankTxns]
  by (auto simp: Match_Matched isExactMatch_iff calculateDiscrepancy_def)

theorem C4_confidence_and_discrepancy_witness:
  "Matched (fst (Match [sys_debit_150] [bank_debit_150])) =
     [\<lparr> SystemTransaction = sys_debit_150, BankTransaction = bank_debit_150,
        ConfidenceScore = 100, AmountDiscrepancy = 0 \<rparr>] \<and>
   AbsAmount sys_debit_150 = AbsAmount bank_debit_150 \<and>
   \<bar>AbsAmount sys_debit_150 - AbsAmount bank_debit_150\<bar> = 0"
  using C4_confidence_and_discrepancy [of "[sys_debit_150]" "[bank_debit_150]"]
  by (simp add: Match_debit_150)




text \<open>
  C6 (idempotence): a second \<^verbatim>\<open>NormalizeAmount\<close> leaves the amount of a normalized
  transaction unchanged; it changes nothing but the \<^verbatim>\<open>UpdatedAt\<close> stamp.
\<close>

theorem C6_normalize_idempotent:
  "Amount (NormalizeAmount now' (NormalizeAmount now t)) = Amount (NormalizeAmount now t) \<and>
   NormalizeAmount now' (NormalizeAmount now t) = (NormalizeAmount now t)\<lparr> UpdatedAt := now' \<rparr>"
  by (simp add: NormalizeAmount_def TransactionTypeDebit_def TransactionTypeCredit_def)

text \<open>
  C7 (no duplicate consumption): the bank transactions of the pairs in \<^verbatim>\<open>Matched\<close> have
  pairwise different IDs, so no bank transaction is in two pairs.
\<close>

theorem C7_no_duplicate_consumption:
  "distinct (map (\<lambda>p. ID (BankTransaction p)) (Matched (fst (Match systemTxns bankTxns)))) \<and>
   distinct (map BankTransaction (Matched (fst (Match systemTxns bankTxns))))"
proof -
  have d: "distinct (map (\<lambda>p. ID (BankTransaction p)) (Matched (fst (Match systemTxns bankTxns))))"
    using match_run_distinct [of systemTxns bankTxns] by (simp add: Match_Matched)
  have "map (\<lambda>p. ID (BankTransaction p)) (Matched (fst (Match systemTxns bankTxns))) =
        map ID (map BankTransaction (Matched (fst (Match systemTxns bankTxns))))"
    by simp
  with d have "distinct (map BankTransaction (Matched (fst (Match systemTxns bankTxns))))"
    using distinct_map by metis
  with d show ?thesis by simp
qed

text \<open>
  C8 (match rate): the finalized rate is 100 when both totals are zero and
  \<open>2 |Matched| / (TotalSystemTxns + TotalBankTxns) * 100\<close> otherwise, the totals being
  those \<^verbatim>\<open>Finalize\<close> sets; matching two empty sequences gives rate 100 and three empty
  partitions.
\<close>

theorem C8_match_rate:
  "MatchRate (Finalize mr) =
     (if TotalSystemTxns (Finalize mr) = 0 \<and> TotalBankTxns (Finalize mr) = 0 then 100
      else (2 * real (length (Matched mr))) /
             real_of_int (TotalSystemTxns (Finalize mr) + TotalBankTxns (Finalize mr)) * 100) \<and>
   TotalSystemTxns (Finalize mr) = int (length (Matched mr)) + int (length (UnmatchedSystem mr)) \<and>
   TotalBankTxns (Finalize mr) = int (length (Matched mr)) + int (length (UnmatchedBank mr)) \<and>
   MatchRate (fst (Match systemTxns bankTxns)) =
     (if TotalSystemTxns (fst (Match systemTxns bankTxns)) = 0 \<and>
         TotalBankTxns (fst (Match systemTxns bankTxns)) = 0 then 100
      else (2 * real (length (Matched (fst (Match systemTxns bankTxns))))) /
             real_of_int (TotalSystemTxns (fst (Match systemTxns bankTxns)) +
                          TotalBankTxns (fst (Match systemTxns bankTxns))) * 100) \<and>
   MatchRate (fst (Match [] [])) = 100 \<and>
   Matched (fst (Match [] [])) = [] \<and>
   UnmatchedSystem (fst (Match [] [])) = [] \<and>
   UnmatchedBank (fst (Match [] [])) = []"
proof -
  have rate: "MatchRate (Finalize r) =
     (if TotalSystemTxns (Finalize r) = 0 \<and> TotalBankTxns (Finalize r) = 0 then 100
      else (2 * real (length (Matched r))) /
             real_of_int (TotalSystemTxns (Finalize r) + TotalBankTxns (Finalize r)) * 100)" for r
    by (simp add: Finalize_def CalculateMatchRate_def Let_def)
  have totals: "TotalSystemTxns (Finalize mr) = int (length (Matched mr)) + int (length (UnmatchedSystem mr))"
    "TotalBankTxns (Finalize mr) = int (length (Matched mr)) + int (length (UnmatchedBank mr))"
    by (simp_all add: Finalize_def Let_def)
  have run: "MatchRate (fst (Match systemTxns bankTxns)) =
     (if TotalSystemTxns (fst (Match systemTxns bankTxns)) = 0 \<and>
         TotalBankTxns (fst (Match systemTxns bankTxns)) = 0 then 100
      else (2 * real (length (Matched (fst (Match systemTxns bankTxns))))) /
             real_of_int (TotalSystemTxns (fst (Match systemTxns bankTxns)) +
                          TotalBankTxns (fst (Match systemTxns bankTxns))) * 100)"
    using rate [of "result (collect_unmatched_bank (match_run systemTxns bankTxns) bankTxns)"]
    by (simp add: Match_def)
  have empty: "MatchRate (fst (Match [] [])) = 100" "Matched (fst (Match [] [])) = []"
    "UnmatchedSystem (fst (Match [] [])) = []" "UnmatchedBank (fst (Match [] [])) = []"
    by (simp_all add: Match_def match_run_def NewMatchResult_def Finalize_def
        CalculateMatchRate_def Let_def)
  from rate [of mr] totals run empty show ?thesis by simp
qed


text \<open>
  C9 (order independence), as stated: permuting either input leaves the pairings
  unchanged. With two system debits of the same key and one bank debit, the system
  transaction that comes first is paired and the other is unmatched, so swapping the two
  system transactions swaps their partitions.
\<close>

theorem C9_system_order_counterexample:
  "mset [sys_debit_150, sys_debit_150_other] = mset [sys_debit_150_other, sys_debit_150] \<and>
   map SystemTransaction (Matched (fst (Match [sys_debit_150, sys_debit_150_other] [bank_debit_150]))) =
     [sys_debit_150] \<and>
   UnmatchedSystem (fst (Match [sys_debit_150, sys_debit_150_other] [bank_debit_150])) =
     [sys_debit_150_other] \<and>
   map SystemTransaction (Matched (fst (Match [sys_debit_150_other, sys_debit_150] [bank_debit_150]))) =
     [sys_debit_150_other] \<and>
   UnmatchedSystem (fst (Match [sys_debit_150_other, sys_debit_150] [bank_debit_150])) =
     [sys_debit_150] \<and>
   sys_debit_150 \<noteq> sys_debit_150_other"
proof -
  have "sys_debit_150 \<noteq> sys_debit_150_other"
    by (simp add: example_defs)
  then show ?thesis
    by (simp add: Match_Matched Match_UnmatchedSystem run_defs example_facts)
qed

text \<open>
  C9, amended: a permutation of \<^verbatim>\<open>bankTxns\<close> leaves \<^verbatim>\<open>Matched\<close> and
  \<^verbatim>\<open>UnmatchedSystem\<close> unchanged and permutes \<^verbatim>\<open>UnmatchedBank\<close>. A permutation of
  \<^verbatim>\<open>systemTxns\<close>, when the bank IDs are pairwise different, leaves \<^verbatim>\<open>UnmatchedBank\<close>
  and the sizes of \<^verbatim>\<open>Matched\<close> and \<^verbatim>\<open>UnmatchedSystem\<close> unchanged. The match rate is
  the same in both cases.
\<close>

theorem C9_order_independence:
  "(mset bankTxns = mset bankTxns' \<longrightarrow>
      Matched (fst (Match systemTxns bankTxns)) = Matched (fst (Match systemTxns bankTxns')) \<and>
      UnmatchedSystem (fst (Match systemTxns bankTxns)) =
        UnmatchedSystem (fst (Match systemTxns bankTxns')) \<and>
      mset (UnmatchedBank (fst (Match systemTxns bankTxns))) =
        mset (UnmatchedBank (fst (Match systemTxns bankTxns'))) \<and>
      MatchRate (fst (Match systemTxns bankTxns)) = MatchRate (fst (Match systemTxns bankTxns'))) \<and>
   (mset systemTxns = mset systemTxns' \<and> distinct (map ID bankTxns) \<longrightarrow>
      UnmatchedBank (fst (Match systemTxns bankTxns)) =
        UnmatchedBank (fst (Match systemTxns' bankTxns)) \<and>
      length (Matched (fst (Match systemTxns bankTxns))) =
        length (Matched (fst (Match systemTxns' bankTxns))) \<and>
      length (UnmatchedSystem (fst (Match systemTxns bankTxns))) =
        length (UnmatchedSystem (fst (Match systemTxns' bankTxns))) \<and>
      MatchRate (fst (Match systemTxns bankTxns)) = MatchRate (fst (Match systemTxns' bankTxns)))"
  using Match_bank_perm [of bankTxns bankTxns' systemTxns]
    Match_system_perm [of systemTxns systemTxns' bankTxns]
  by blast

theorem C9_order_independence_witness:
  "mset [bank_debit_150, bank_mandiri_tx1] = mset [bank_mandiri_tx1, bank_debit_150] \<and>
   mset [sys_debit_150, sys_debit_150_other] = mset [sys_debit_150_other, sys_debit_150] \<and>
   distinct (map ID [bank_debit_150, bank_mandiri_tx1]) \<and>
   Matched (fst (Match [sys_debit_150, sys_debit_150_other] [bank_mandiri_tx1, bank_debit_150])) =
     [\<lparr> SystemTransaction = sys_debit_150, BankTransaction = bank_debit_150,
        ConfidenceScore = 100, AmountDiscrepancy = 0 \<rparr>] \<and>
   UnmatchedSystem (fst (Match [sys_debit_150, sys_debit_150_other] [bank_mandiri_tx1, bank_debit_150])) =
     [sys_debit_150_other] \<and>
   mset (UnmatchedBank (fst (Match [sys_debit_150, sys_debit_150_other] [bank_mandiri_tx1, bank_debit_150]))) =
     {#bank_mandiri_tx1#} \<and>
   UnmatchedBank (fst (Match [sys_debit_150_other, sys_debit_150] [bank_debit_150, bank_mandiri_tx1])) =
     [bank_mandiri_tx1] \<and>
   length (Matched (fst (Match [sys_debit_150_other, sys_debit_150] [bank_debit_150, bank_mandiri_tx1]))) = 1 \<and>
   length (UnmatchedSystem (fst (Match [sys_debit_150_other, sys_debit_150] [bank_debit_150, bank_mandiri_tx1]))) = 1"
proof -
  have h: "mset [bank_debit_150, bank_mandiri_tx1] = mset [bank_mandiri_tx1, bank_debit_150]"
    "mset [sys_debit_150, sys_debit_150_other] = mset [sys_debit_150_other, sys_debit_150]"
    "distinct (map ID [bank_debit_150, bank_mandiri_tx1])"
    by (simp_all add: add_mset_commute example_ids)
  from h C9_order_independence [of "[bank_debit_150, bank_mandiri_tx1]"
      "[bank_mandiri_tx1, bank_debit_150]" "[sys_debit_150, sys_debit_150_other]"
      "[sys_debit_150_other, sys_debit_150]"]
  show ?thesis
    by (simp only: Match_two_systems_two_banks) (simp add: example_ids)
qed

text \<open>
  C10 (pairs satisfy the exact-match predicate): the two transactions of every pair
  emitted by \<^verbatim>\<open>Match\<close> are on the same calendar day, have the same debit polarity and
  absolute amounts less than 0.001 apart, and the pair's discrepancy is below 0.001.
\<close>

theorem C10_pairs_satisfy_exact_match:
  "\<forall>p \<in> set (Matched (fst (Match systemTxns bankTxns))).
     isExactMatch (SystemTransaction p) (BankTransaction p) \<and>
     isSameDay (TransactionDate (SystemTransaction p)) (TransactionDate (BankTransaction p)) \<and>
     IsDebit (SystemTransaction p) = IsDebit (BankTransaction p) \<and>
     \<bar>AbsAmount (SystemTransaction p) - AbsAmount (BankTransaction p)\<bar> < 0.001 \<and>
     AmountDiscrepancy p < 0.001"
  using match_run_pairs [of systemTxns bankTxns]
  by (auto simp: Match_Matched isExactMatch_iff calculateDiscrepancy_def)

theorem C10_pairs_satisfy_exact_match_witness:
  "Matched (fst (Match [sys_credit_1] [bank_credit_1_frac])) =
     [\<lparr> SystemTransaction = sys_credit_1, BankTransaction = bank_credit_1_frac,
        ConfidenceScore = 100, AmountDiscrepancy = 1 / 1024 \<rparr>] \<and>
   isExactMatch sys_credit_1 bank_credit_1_frac \<and>
   isSameDay (TransactionDate sys_credit_1) (TransactionDate bank_credit_1_frac) \<and>
   IsDebit sys_credit_1 = IsDebit bank_credit_1_frac \<and>
   \<bar>AbsAmount sys_credit_1 - AbsAmount bank_credit_1_frac\<bar> < 0.001 \<and>
   (1 / 1024 :: real) < 0.001"
  using C10_pairs_satisfy_exact_match [of "[sys_credit_1]" "[bank_credit_1_frac]"]
  by (simp add: Match_credit_fraction)

end
